theory Spec2Isabelle
  imports Main "HOL-Library.Word"
begin

unbundle bit_operations_syntax

section \<open>Data model (lantiq_gsw.h)\<close>

text \<open>
  The C integer types of the driver. \<open>u16\<close> table words and \<open>u8\<close> flow ids wrap by
  truncation, which is what \<open>word_of_int\<close>, \<open>of_nat\<close> and \<open>ucast\<close> do on words.
\<close>

type_synonym u8 = "8 word"
type_synonym u16 = "16 word"
type_synonym u32 = "32 word"

text \<open>
  The negative errno values the driver returns. A function that returns \<open>0\<close> or
  \<open>-E...\<close> in C returns \<open>errno option\<close> here (\<open>None\<close> is 0); one that returns an
  index or \<open>-E...\<close> returns \<open>errno + nat\<close>.
\<close>

datatype errno = EIO | ENOENT | EINVAL | ENOSPC | EOPNOTSUPP | ETIMEDOUT | ENXIO

text \<open>
  A \<open>struct net_device *\<close> is only compared for identity and against \<open>NULL\<close>: a
  pointer is \<open>net_device option\<close>, \<open>None\<close> being \<open>NULL\<close>.
\<close>

type_synonym net_device = nat

record gsw_hw_info =
  max_ports :: nat
  cpu_port :: nat

text \<open>\<open>struct gswip_vlan\<close>; the fields carry the prefix \<open>vlan_\<close>.\<close>

record gswip_vlan =
  vlan_bridge :: "net_device option"
  vlan_vid :: u16
  vlan_fid :: u8

text \<open>
  \<open>struct gswip_pce_table_entry\<close>; the fields carry the prefix \<open>tbl_\<close>. The arrays
  \<open>key[8]\<close> and \<open>val[5]\<close> are lists of that length.
\<close>

record gswip_pce_table_entry =
  tbl_index :: u16
  tbl_table :: u16
  tbl_key :: "u16 list"
  tbl_val :: "u16 list"
  tbl_mask :: u16
  tbl_gmap :: u8
  tbl_type :: bool
  tbl_valid :: bool
  tbl_key_mode :: bool

text \<open>The initialiser \<open>= {0,}\<close> of a table entry.\<close>

definition pce_entry0 :: gswip_pce_table_entry where
  "pce_entry0 =
     \<lparr>tbl_index = 0, tbl_table = 0, tbl_key = replicate 8 0, tbl_val = replicate 5 0,
      tbl_mask = 0, tbl_gmap = 0, tbl_type = False, tbl_valid = False,
      tbl_key_mode = False\<rparr>"

definition BIT :: "nat \<Rightarrow> 'a::len word" where
  "BIT n = push_bit n 1"

definition GSWIP_TABLE_ACTIVE_VLAN :: u16 where
  "GSWIP_TABLE_ACTIVE_VLAN = 0x01"

definition GSWIP_TABLE_VLAN_MAPPING :: u16 where
  "GSWIP_TABLE_VLAN_MAPPING = 0x02"

definition GSWIP_TABLE_MAC_BRIDGE :: u16 where
  "GSWIP_TABLE_MAC_BRIDGE = 0x0b"

definition GSWIP_TABLE_MAC_BRIDGE_STATIC :: u16 where
  "GSWIP_TABLE_MAC_BRIDGE_STATIC = 0x01"

definition GSWIP_PCE_TBL_CTRL :: u32 where
  "GSWIP_PCE_TBL_CTRL = 0x44F"

definition GSWIP_PCE_TBL_CTRL_BAS :: u32 where
  "GSWIP_PCE_TBL_CTRL_BAS = BIT 15"

definition GSWIP_PCE_DEFPVID :: "nat \<Rightarrow> u32" where
  "GSWIP_PCE_DEFPVID p = 0x486 + of_nat p * 0xA"

subsection \<open>The switch behind the register windows\<close>

text \<open>
  What the hardware keeps for one index of a table bank: the key words, the value
  words, the mask, and the type, valid and group-map fields of the control word. The
  group map is the four bits \<open>GENMASK(10, 7)\<close> of the control register.
\<close>

record pce_row =
  row_key :: "u16 list"
  row_val :: "u16 list"
  row_mask :: u16
  row_gmap :: "4 word"
  row_type :: bool
  row_valid :: bool

text \<open>
  The driver reaches the switch only through \<open>hw_ops->read\<close>, \<open>hw_ops->write\<close> and
  \<open>hw_ops->poll_timeout\<close>. The device itself is not part of the sources, so it is a
  parameter of the model:
  \<^item> \<open>pce_tbl\<close>: the content of the table banks, by bank number and index;
  \<^item> \<open>ks_index\<close>: the index the hardware selects for a key-search access, from the
    content of the bank and the key words;
  \<^item> \<open>switch_regs\<close>, \<open>mdio_regs\<close>: the configuration registers of the switch and MDIO
    windows, which read back what was written last;
  \<^item> \<open>polls\<close>: the outcomes of the busy polls still to come, in order (\<open>None\<close>: the bit
    cleared in time; \<open>Some e\<close>: \<open>poll_timeout\<close> returned \<open>-e\<close>). Once the list is
    used up every poll succeeds.
\<close>

record gswip_hw =
  pce_tbl :: "u16 \<Rightarrow> nat \<Rightarrow> pce_row"
  ks_index :: "(nat \<Rightarrow> pce_row) \<Rightarrow> u16 list \<Rightarrow> nat"
  switch_regs :: "u32 \<Rightarrow> u32"
  mdio_regs :: "u32 \<Rightarrow> u32"
  polls :: "errno option list"

text \<open>
  The part of \<open>struct dsa_switch\<close> the driver asks the DSA core about: the type of each
  port, the bridge a port is a member of (\<open>dsa_to_port(ds, port)->bridge_dev\<close>), and
  \<open>br_vlan_enabled\<close> of a bridge.
\<close>

datatype dsa_port_type =
  DSA_PORT_TYPE_UNUSED | DSA_PORT_TYPE_CPU | DSA_PORT_TYPE_DSA | DSA_PORT_TYPE_USER

record dsa_switch =
  dp_type :: "nat \<Rightarrow> dsa_port_type"
  bridge_dev :: "nat \<Rightarrow> net_device option"
  br_vlan_enabled :: "net_device \<Rightarrow> bool"

text \<open>
  \<open>struct gswip_priv\<close>. \<open>vlans\<close> is the array \<open>vlans[64]\<close>, read and written at
  indices below 64 only; \<open>hw\<close> is the device behind the three register windows; \<open>klog\<close>
  collects the messages of \<open>dev_err\<close>.
\<close>

record gswip_priv =
  hw_info :: gsw_hw_info
  ds :: dsa_switch
  vlans :: "nat \<Rightarrow> gswip_vlan"
  port_vlan_filter :: u32
  hw :: gswip_hw
  klog :: "string list"

definition dev_err :: "gswip_priv \<Rightarrow> string \<Rightarrow> gswip_priv" where
  "dev_err priv msg = priv\<lparr>klog := klog priv @ [msg]\<rparr>"



section \<open>Table transport\<close>

definition gswip_switch_r :: "gswip_priv \<Rightarrow> u32 \<Rightarrow> u32" where
  "gswip_switch_r priv offset = switch_regs (hw priv) offset"

definition gswip_switch_w :: "gswip_priv \<Rightarrow> u32 \<Rightarrow> u32 \<Rightarrow> gswip_priv" where
  "gswip_switch_w priv v offset =
     priv\<lparr>hw := (hw priv)\<lparr>switch_regs := (switch_regs (hw priv))(offset := v)\<rparr>\<rparr>"

definition gswip_switch_mask :: "gswip_priv \<Rightarrow> u32 \<Rightarrow> u32 \<Rightarrow> u32 \<Rightarrow> gswip_priv" where
  "gswip_switch_mask priv clear setb offset =
     gswip_switch_w priv ((gswip_switch_r priv offset AND NOT clear) OR setb) offset"

text \<open>
  \<open>gswip_switch_r_timeout\<close> polls a register until the bits \<open>cleared\<close> are zero (every
  20 us, for 50 ms at most). Its outcome is the next one the device has in store.
\<close>

definition gswip_switch_r_timeout :: "gswip_priv \<Rightarrow> u32 \<Rightarrow> u32 \<Rightarrow> errno option \<times> gswip_priv" where
  "gswip_switch_r_timeout priv offset cleared =
     (case polls (hw priv) of
        [] \<Rightarrow> (None, priv)
      | r # rs \<Rightarrow> (r, priv\<lparr>hw := (hw priv)\<lparr>polls := rs\<rparr>\<rparr>))"

text \<open>
  The index a table access addresses: \<open>tbl->index\<close> in address mode, the index the
  hardware finds for the key in key-search mode.
\<close>

definition hw_row_index :: "gswip_hw \<Rightarrow> gswip_pce_table_entry \<Rightarrow> nat" where
  "hw_row_index h tbl =
     (if tbl_key_mode tbl then ks_index h (pce_tbl h (tbl_table tbl)) (tbl_key tbl)
      else unat (tbl_index tbl))"

text \<open>
  What the register sequence of a write (index, bank and opcode, key words, value
  words, mask, then the control word with type, valid, group map and the start bit)
  does to the addressed bank: the row is stored at the index.
\<close>

definition hw_table_store :: "gswip_hw \<Rightarrow> gswip_pce_table_entry \<Rightarrow> gswip_hw" where
  "hw_table_store h tbl =
     h\<lparr>pce_tbl := (pce_tbl h)(tbl_table tbl :=
          (pce_tbl h (tbl_table tbl))(hw_row_index h tbl :=
             \<lparr>row_key = tbl_key tbl, row_val = tbl_val tbl, row_mask = tbl_mask tbl,
              row_gmap = ucast (tbl_gmap tbl), row_type = tbl_type tbl,
              row_valid = tbl_valid tbl\<rparr>))\<rparr>"

text \<open>
  \<open>gswip_pce_table_entry_read\<close>: poll for not busy, start the read, poll for
  completion, then read back key, value, mask and the control fields into \<open>tbl\<close>.
  Returns the error, the device and \<open>*tbl\<close>.
\<close>

definition gswip_pce_table_entry_read ::
  "gswip_priv \<Rightarrow> gswip_pce_table_entry \<Rightarrow> errno option \<times> gswip_priv \<times> gswip_pce_table_entry" where
  "gswip_pce_table_entry_read priv tbl =
     (case gswip_switch_r_timeout priv GSWIP_PCE_TBL_CTRL GSWIP_PCE_TBL_CTRL_BAS of
        (Some err, priv1) \<Rightarrow> (Some err, priv1, tbl)
      | (None, priv1) \<Rightarrow>
          (case gswip_switch_r_timeout priv1 GSWIP_PCE_TBL_CTRL GSWIP_PCE_TBL_CTRL_BAS of
             (Some err, priv2) \<Rightarrow> (Some err, priv2, tbl)
           | (None, priv2) \<Rightarrow>
               (let row = pce_tbl (hw priv2) (tbl_table tbl) (hw_row_index (hw priv2) tbl)
                in (None, priv2,
                    tbl\<lparr>tbl_key := row_key row, tbl_val := row_val row,
                        tbl_mask := row_mask row, tbl_type := row_type row,
                        tbl_valid := row_valid row, tbl_gmap := ucast (row_gmap row)\<rparr>))))"

text \<open>
  \<open>gswip_pce_table_entry_write\<close>: poll for not busy, write the registers (the control
  word last, with the start bit), and return the outcome of the completion poll.
\<close>

definition gswip_pce_table_entry_write ::
  "gswip_priv \<Rightarrow> gswip_pce_table_entry \<Rightarrow> errno option \<times> gswip_priv" where
  "gswip_pce_table_entry_write priv tbl =
     (case gswip_switch_r_timeout priv GSWIP_PCE_TBL_CTRL GSWIP_PCE_TBL_CTRL_BAS of
        (Some err, priv1) \<Rightarrow> (Some err, priv1)
      | (None, priv1) \<Rightarrow>
          gswip_switch_r_timeout (priv1\<lparr>hw := hw_table_store (hw priv1) tbl\<rparr>)
            GSWIP_PCE_TBL_CTRL GSWIP_PCE_TBL_CTRL_BAS)"

section \<open>Slot pool\<close>

text \<open>
  \<open>gswip_vlan_active_create\<close>. The loop \<open>for (i = max_ports; i < 64; i++)\<close> that stops
  at the first free slot is \<open>find\<close> over the ascending indices. \<open>fid\<close> is the C \<open>int\<close>,
  \<open>-1\<close> asking for the slot's own index.
\<close>

definition gswip_vlan_active_create ::
  "gswip_priv \<Rightarrow> net_device option \<Rightarrow> int \<Rightarrow> u16 \<Rightarrow> (errno + nat) \<times> gswip_priv" where
  "gswip_vlan_active_create priv bridge fid vid =
     (case find (\<lambda>i. vlan_bridge (vlans priv i) = None) [max_ports (hw_info priv)..<64] of
        None \<Rightarrow> (Inl ENOSPC, priv)
      | Some idx \<Rightarrow>
          (let fid1 = (if fid = - 1 then int idx else fid);
               vlan_active = pce_entry0
                 \<lparr>tbl_index := of_nat idx, tbl_table := GSWIP_TABLE_ACTIVE_VLAN,
                  tbl_key := (tbl_key pce_entry0)[0 := vid],
                  tbl_val := (tbl_val pce_entry0)[0 := word_of_int fid1],
                  tbl_valid := True\<rparr>
           in case gswip_pce_table_entry_write priv vlan_active of
                (Some err, priv1) \<Rightarrow>
                  (Inl err, dev_err priv1 ''failed to write active VLAN: %d'')
              | (None, priv1) \<Rightarrow>
                  (Inr idx,
                   priv1\<lparr>vlans := (vlans priv1)(idx :=
                      \<lparr>vlan_bridge = bridge, vlan_vid = vid,
                       vlan_fid = word_of_int fid1\<rparr>)\<rparr>)))"

text \<open>
  \<open>gswip_vlan_active_remove\<close>: the binding is cleared whatever the write returned.
\<close>

definition gswip_vlan_active_remove :: "gswip_priv \<Rightarrow> nat \<Rightarrow> errno option \<times> gswip_priv" where
  "gswip_vlan_active_remove priv idx =
     (let vlan_active = pce_entry0
            \<lparr>tbl_index := of_nat idx, tbl_table := GSWIP_TABLE_ACTIVE_VLAN,
             tbl_valid := False\<rparr>;
          (err, priv1) = gswip_pce_table_entry_write priv vlan_active;
          priv2 = (if err \<noteq> None then dev_err priv1 ''failed to delete active VLAN: %d''
                   else priv1)
      in (err, priv2\<lparr>vlans := (vlans priv2)(idx := (vlans priv2 idx)\<lparr>vlan_bridge := None\<rparr>)\<rparr>))"

section \<open>Bridge/VLAN translator\<close>

text \<open>
  The C statements \<open>e.key[k] = v\<close>, \<open>e.val[k] = v\<close>, \<open>e.val[k] |= b\<close> and
  \<open>e.val[k] &= b\<close> on a table entry.
\<close>

definition key_set :: "gswip_pce_table_entry \<Rightarrow> nat \<Rightarrow> u16 \<Rightarrow> gswip_pce_table_entry" where
  "key_set e k v = e\<lparr>tbl_key := (tbl_key e)[k := v]\<rparr>"

definition val_set :: "gswip_pce_table_entry \<Rightarrow> nat \<Rightarrow> u16 \<Rightarrow> gswip_pce_table_entry" where
  "val_set e k v = e\<lparr>tbl_val := (tbl_val e)[k := v]\<rparr>"

definition val_or :: "gswip_pce_table_entry \<Rightarrow> nat \<Rightarrow> u16 \<Rightarrow> gswip_pce_table_entry" where
  "val_or e k b = e\<lparr>tbl_val := (tbl_val e)[k := tbl_val e ! k OR b]\<rparr>"

definition val_and :: "gswip_pce_table_entry \<Rightarrow> nat \<Rightarrow> u16 \<Rightarrow> gswip_pce_table_entry" where
  "val_and e k b = e\<lparr>tbl_val := (tbl_val e)[k := tbl_val e ! k AND b]\<rparr>"










definition GSWIP_PCE_PCTRL_0p :: "nat \<Rightarrow> u32" where
  "GSWIP_PCE_PCTRL_0p p = 0x480 + of_nat p * 0xA"

definition GSWIP_PCE_PCTRL_0_TVM :: u32 where
  "GSWIP_PCE_PCTRL_0_TVM = BIT 5"

definition GSWIP_PCE_VCTRL :: "nat \<Rightarrow> u32" where
  "GSWIP_PCE_VCTRL p = 0x485 + of_nat p * 0xA"

definition GSWIP_PCE_VCTRL_UVR :: u32 where
  "GSWIP_PCE_VCTRL_UVR = BIT 0"

definition GSWIP_PCE_VCTRL_VIMR :: u32 where
  "GSWIP_PCE_VCTRL_VIMR = BIT 3"

definition GSWIP_PCE_VCTRL_VEMR :: u32 where
  "GSWIP_PCE_VCTRL_VEMR = BIT 4"

definition GSWIP_PCE_VCTRL_VSR :: u32 where
  "GSWIP_PCE_VCTRL_VSR = BIT 5"




text \<open>
  \<open>gswip_add_single_port_br\<close>: the bridge of one LAN port with the CPU port, at index
  \<open>port + 1\<close>. With \<open>add\<close> false only the Active-VLAN entry is written.
\<close>

definition gswip_add_single_port_br :: "gswip_priv \<Rightarrow> nat \<Rightarrow> bool \<Rightarrow> errno option \<times> gswip_priv" where
  "gswip_add_single_port_br priv port add =
     (if port \<ge> max_ports (hw_info priv)
      then (Some EIO, dev_err priv ''single port for %i supported'')
      else
        (let vlan_active =
               val_set (key_set (pce_entry0
                  \<lparr>tbl_index := of_nat (port + 1), tbl_table := GSWIP_TABLE_ACTIVE_VLAN\<rparr>) 0 0)
                 0 (of_nat (port + 1))
               \<lparr>tbl_valid := add\<rparr>
         in case gswip_pce_table_entry_write priv vlan_active of
              (Some err, priv1) \<Rightarrow> (Some err, dev_err priv1 ''failed to write active VLAN: %d'')
            | (None, priv1) \<Rightarrow>
                if \<not> add then (None, priv1)
                else
                  (let vlan_mapping =
                         val_set (val_set (val_set (pce_entry0
                            \<lparr>tbl_index := of_nat (port + 1),
                             tbl_table := GSWIP_TABLE_VLAN_MAPPING\<rparr>) 0 0)
                           1 (BIT port OR BIT (cpu_port (hw_info priv)))) 2 0
                   in case gswip_pce_table_entry_write priv1 vlan_mapping of
                        (Some err, priv2) \<Rightarrow>
                          (Some err, dev_err priv2 ''failed to write VLAN mapping: %d'')
                      | (None, priv2) \<Rightarrow> (None, priv2))))"


text \<open>
  \<open>gswip_port_vlan_filtering\<close>. The refusal comes before every register access; the
  message it leaves in \<open>extack\<close> is not part of the model.
\<close>

definition gswip_port_vlan_filtering :: "gswip_priv \<Rightarrow> nat \<Rightarrow> bool \<Rightarrow> errno option \<times> gswip_priv" where
  "gswip_port_vlan_filtering priv port vlan_filtering =
     (let bridge = bridge_dev (ds priv) port
      in if bridge \<noteq> None \<and> ((port_vlan_filter priv AND BIT port) \<noteq> 0) \<noteq> vlan_filtering
         then (Some EIO, priv)
         else if vlan_filtering
         then (None,
               gswip_switch_mask
                 (gswip_switch_mask priv GSWIP_PCE_VCTRL_VSR
                    (GSWIP_PCE_VCTRL_UVR OR GSWIP_PCE_VCTRL_VIMR OR GSWIP_PCE_VCTRL_VEMR)
                    (GSWIP_PCE_VCTRL port))
                 GSWIP_PCE_PCTRL_0_TVM 0 (GSWIP_PCE_PCTRL_0p port))
         else (None,
               gswip_switch_mask
                 (gswip_switch_mask priv
                    (GSWIP_PCE_VCTRL_UVR OR GSWIP_PCE_VCTRL_VIMR OR GSWIP_PCE_VCTRL_VEMR)
                    GSWIP_PCE_VCTRL_VSR (GSWIP_PCE_VCTRL port))
                 0 GSWIP_PCE_PCTRL_0_TVM (GSWIP_PCE_PCTRL_0p port)))"

text \<open>
  \<open>gswip_vlan_add_unaware\<close>. The first part finds the slot of the bridge or creates
  one, and yields the device, \<open>idx\<close>, \<open>active_vlan_created\<close> and the VLAN mapping entry
  (read back from the switch for a slot that exists); the second part is the code
  after the \<open>if\<close>/\<open>else\<close>.
\<close>

definition gswip_vlan_add_unaware ::
  "gswip_priv \<Rightarrow> net_device option \<Rightarrow> nat \<Rightarrow> errno option \<times> gswip_priv" where
  "gswip_vlan_add_unaware priv bridge port =
     (case (case find (\<lambda>i. vlan_bridge (vlans priv i) = bridge)
                   [max_ports (hw_info priv)..<64] of
              None \<Rightarrow>
                (case gswip_vlan_active_create priv bridge (- 1) 0 of
                   (Inl err, priv1) \<Rightarrow> Inl (err, priv1)
                 | (Inr idx, priv1) \<Rightarrow>
                     Inr (priv1, idx, True,
                          val_set (pce_entry0
                            \<lparr>tbl_index := of_nat idx,
                             tbl_table := GSWIP_TABLE_VLAN_MAPPING\<rparr>) 0 0))
            | Some idx \<Rightarrow>
                (case gswip_pce_table_entry_read priv
                        (pce_entry0\<lparr>tbl_index := of_nat idx,
                                    tbl_table := GSWIP_TABLE_VLAN_MAPPING\<rparr>) of
                   (Some err, priv1, vlan_mapping) \<Rightarrow>
                     Inl (err, dev_err priv1 ''failed to read VLAN mapping: %d'')
                 | (None, priv1, vlan_mapping) \<Rightarrow> Inr (priv1, idx, False, vlan_mapping))) of
        Inl (err, priv1) \<Rightarrow> (Some err, priv1)
      | Inr (priv1, idx, active_vlan_created, vlan_mapping) \<Rightarrow>
          (let vlan_mapping1 =
                 val_or (val_or vlan_mapping 1 (BIT (cpu_port (hw_info priv)))) 1 (BIT port)
           in case gswip_pce_table_entry_write priv1 vlan_mapping1 of
                (Some err, priv2) \<Rightarrow>
                  (let priv3 = dev_err priv2 ''failed to write VLAN mapping: %d''
                   in (Some err,
                       if active_vlan_created then snd (gswip_vlan_active_remove priv3 idx)
                       else priv3))
              | (None, priv2) \<Rightarrow> (None, gswip_switch_w priv2 0 (GSWIP_PCE_DEFPVID port))))"

text \<open>
  The loop of \<open>gswip_vlan_add_aware\<close> over the slots from \<open>i\<close> on. It carries \<open>fid\<close>
  (\<open>-1\<close> until a slot of the bridge is seen, then the flow id of the last one seen),
  complains when a slot of the bridge has another flow id than the one before, and
  stops at the slot with the VLAN id. Returns \<open>idx\<close> (\<open>None\<close> for \<open>-1\<close>) and \<open>fid\<close>.
\<close>

function gswip_vlan_add_aware_loop ::
  "gswip_priv \<Rightarrow> net_device option \<Rightarrow> u16 \<Rightarrow> nat \<Rightarrow> int \<Rightarrow> nat option \<times> int \<times> gswip_priv" where
  "gswip_vlan_add_aware_loop priv bridge vid i fid =
     (if i < 64 then
        (if vlan_bridge (vlans priv i) = bridge then
           (let priv1 = (if fid \<noteq> - 1 \<and> fid \<noteq> uint (vlan_fid (vlans priv i))
                         then dev_err priv ''one bridge with multiple flow ids''
                         else priv);
                fid1 = uint (vlan_fid (vlans priv i))
            in if vlan_vid (vlans priv i) = vid then (Some i, fid1, priv1)
               else gswip_vlan_add_aware_loop priv1 bridge vid (i + 1) fid1)
         else gswip_vlan_add_aware_loop priv bridge vid (i + 1) fid)
      else (None, fid, priv))"
  by pat_completeness auto
termination
  by (relation "measure (\<lambda>(priv, bridge, vid, i, fid). 64 - i)") auto

definition gswip_vlan_add_aware ::
  "gswip_priv \<Rightarrow> net_device option \<Rightarrow> nat \<Rightarrow> u16 \<Rightarrow> bool \<Rightarrow> bool \<Rightarrow> errno option \<times> gswip_priv" where
  "gswip_vlan_add_aware priv bridge port vid untagged pvid =
     (case gswip_vlan_add_aware_loop priv bridge vid (max_ports (hw_info priv)) (- 1) of
        (found, fid, priv0) \<Rightarrow>
     (case (case found of
              None \<Rightarrow>
                (case gswip_vlan_active_create priv0 bridge fid vid of
                   (Inl err, priv1) \<Rightarrow> Inl (err, priv1)
                 | (Inr idx, priv1) \<Rightarrow>
                     Inr (priv1, idx, True,
                          val_set (pce_entry0
                            \<lparr>tbl_index := of_nat idx,
                             tbl_table := GSWIP_TABLE_VLAN_MAPPING\<rparr>) 0 vid))
            | Some idx \<Rightarrow>
                (case gswip_pce_table_entry_read priv0
                        (pce_entry0\<lparr>tbl_index := of_nat idx,
                                    tbl_table := GSWIP_TABLE_VLAN_MAPPING\<rparr>) of
                   (Some err, priv1, vlan_mapping) \<Rightarrow>
                     Inl (err, dev_err priv1 ''failed to read VLAN mapping: %d'')
                 | (None, priv1, vlan_mapping) \<Rightarrow> Inr (priv1, idx, False, vlan_mapping))) of
        Inl (err, priv1) \<Rightarrow> (Some err, priv1)
      | Inr (priv1, idx, active_vlan_created, vlan_mapping) \<Rightarrow>
          (let cpu = cpu_port (hw_info priv);
               vlan_mapping1 =
                 val_or (val_or (val_or (val_set vlan_mapping 0 vid) 1 (BIT cpu)) 2 (BIT cpu))
                   1 (BIT port);
               vlan_mapping2 =
                 (if untagged then val_and vlan_mapping1 2 (NOT (BIT port))
                  else val_or vlan_mapping1 2 (BIT port))
           in case gswip_pce_table_entry_write priv1 vlan_mapping2 of
                (Some err, priv2) \<Rightarrow>
                  (let priv3 = dev_err priv2 ''failed to write VLAN mapping: %d''
                   in (Some err,
                       if active_vlan_created then snd (gswip_vlan_active_remove priv3 idx)
                       else priv3))
              | (None, priv2) \<Rightarrow>
                  (None, if pvid then gswip_switch_w priv2 (of_nat idx) (GSWIP_PCE_DEFPVID port)
                         else priv2))))"

text \<open>\<open>gswip_vlan_remove\<close>.\<close>

definition gswip_vlan_remove ::
  "gswip_priv \<Rightarrow> net_device option \<Rightarrow> nat \<Rightarrow> u16 \<Rightarrow> bool \<Rightarrow> bool \<Rightarrow> errno option \<times> gswip_priv" where
  "gswip_vlan_remove priv bridge port vid pvid vlan_aware =
     (case find (\<lambda>i. vlan_bridge (vlans priv i) = bridge \<and>
                      (\<not> vlan_aware \<or> vlan_vid (vlans priv i) = vid))
             [max_ports (hw_info priv)..<64] of
        None \<Rightarrow> (Some ENOENT, dev_err priv ''bridge to leave does not exists'')
      | Some idx \<Rightarrow>
          (case gswip_pce_table_entry_read priv
                  (pce_entry0\<lparr>tbl_index := of_nat idx,
                              tbl_table := GSWIP_TABLE_VLAN_MAPPING\<rparr>) of
             (Some err, priv1, vlan_mapping) \<Rightarrow>
               (Some err, dev_err priv1 ''failed to read VLAN mapping: %d'')
           | (None, priv1, vlan_mapping) \<Rightarrow>
               (let vlan_mapping1 =
                      val_and (val_and vlan_mapping 1 (NOT (BIT port))) 2 (NOT (BIT port))
                in case gswip_pce_table_entry_write priv1 vlan_mapping1 of
                     (Some err, priv2) \<Rightarrow>
                       (Some err, dev_err priv2 ''failed to write VLAN mapping: %d'')
                   | (None, priv2) \<Rightarrow>
                       (case (if tbl_val vlan_mapping1 ! 1
                                   AND NOT (BIT (cpu_port (hw_info priv))) = 0
                              then gswip_vlan_active_remove priv2 idx
                              else (None, priv2)) of
                          (Some err, priv3) \<Rightarrow>
                            (Some err, dev_err priv3 ''failed to write active VLAN: %d'')
                        | (None, priv3) \<Rightarrow>
                            (None, if pvid then gswip_switch_w priv3 0 (GSWIP_PCE_DEFPVID port)
                                   else priv3)))))"


definition gswip_port_bridge_leave :: "gswip_priv \<Rightarrow> nat \<Rightarrow> net_device \<Rightarrow> gswip_priv" where
  "gswip_port_bridge_leave priv port bridge =
     (let priv1 = snd (gswip_add_single_port_br priv port True)
      in if \<not> br_vlan_enabled (ds priv1) bridge
         then snd (gswip_vlan_remove priv1 (Some bridge) port 0 True False)
         else priv1)"

section \<open>Forwarding-table scanner\<close>

text \<open>
  The ingress port of a learned entry, \<open>(val[0] & GENMASK(7, 4)) >> 4\<close>, and the test
  \<open>val[1] & GSWIP_TABLE_MAC_BRIDGE_STATIC\<close>.
\<close>

definition mac_bridge_port :: "u16 list \<Rightarrow> nat" where
  "mac_bridge_port v = unat (drop_bit 4 (v ! 0 AND 0xF0))"

definition mac_bridge_static :: "u16 list \<Rightarrow> bool" where
  "mac_bridge_static v = (v ! 1 AND GSWIP_TABLE_MAC_BRIDGE_STATIC \<noteq> 0)"

text \<open>
  The loop of \<open>gswip_port_fast_age\<close> from index \<open>i\<close> on. \<open>mac_bridge\<close> is the one entry
  the C function reuses in every round; an error ends the function.
\<close>

function gswip_port_fast_age_loop ::
  "gswip_priv \<Rightarrow> nat \<Rightarrow> gswip_pce_table_entry \<Rightarrow> nat \<Rightarrow> gswip_priv" where
  "gswip_port_fast_age_loop priv port mac_bridge i =
     (if i < 2048 then
        (case gswip_pce_table_entry_read priv
                (mac_bridge\<lparr>tbl_table := GSWIP_TABLE_MAC_BRIDGE, tbl_index := of_nat i\<rparr>) of
           (Some err, priv1, mac_bridge1) \<Rightarrow> dev_err priv1 ''failed to read mac bridge: %d''
         | (None, priv1, mac_bridge1) \<Rightarrow>
             if \<not> tbl_valid mac_bridge1
             then gswip_port_fast_age_loop priv1 port mac_bridge1 (i + 1)
             else if mac_bridge_static (tbl_val mac_bridge1)
             then gswip_port_fast_age_loop priv1 port mac_bridge1 (i + 1)
             else if mac_bridge_port (tbl_val mac_bridge1) \<noteq> port
             then gswip_port_fast_age_loop priv1 port mac_bridge1 (i + 1)
             else
               (case gswip_pce_table_entry_write priv1 (mac_bridge1\<lparr>tbl_valid := False\<rparr>) of
                  (Some err, priv2) \<Rightarrow> dev_err priv2 ''failed to write mac bridge: %d''
                | (None, priv2) \<Rightarrow>
                    gswip_port_fast_age_loop priv2 port (mac_bridge1\<lparr>tbl_valid := False\<rparr>)
                      (i + 1)))
      else priv)"
  by pat_completeness auto
termination
  by (relation "measure (\<lambda>(priv, port, mac_bridge, i). 2048 - i)") auto

definition gswip_port_fast_age :: "gswip_priv \<Rightarrow> nat \<Rightarrow> gswip_priv" where
  "gswip_port_fast_age priv port = gswip_port_fast_age_loop priv port pce_entry0 0"

text \<open>
  \<open>gswip_port_fdb\<close>: add or delete a static entry. \<open>addr\<close> is the six bytes of the MAC
  address. The flow id is the one of the first slot of the port's bridge.
\<close>

definition gswip_port_fdb ::
  "gswip_priv \<Rightarrow> nat \<Rightarrow> u8 list \<Rightarrow> u16 \<Rightarrow> bool \<Rightarrow> errno option \<times> gswip_priv" where
  "gswip_port_fdb priv port addr vid add =
     (let bridge = bridge_dev (ds priv) port
      in if bridge = None then (Some EINVAL, priv)
         else
           (case find (\<lambda>i. vlan_bridge (vlans priv i) = bridge)
                   [max_ports (hw_info priv)..<64] of
              None \<Rightarrow> (Some EINVAL, dev_err priv ''Port not part of a bridge'')
            | Some i \<Rightarrow>
                (let fid = uint (vlan_fid (vlans priv i));
                     mac_bridge =
                       val_set (val_set (key_set (key_set (key_set (key_set (pce_entry0
                          \<lparr>tbl_table := GSWIP_TABLE_MAC_BRIDGE, tbl_key_mode := True\<rparr>)
                          0 (ucast (addr ! 5) OR push_bit 8 (ucast (addr ! 4))))
                          1 (ucast (addr ! 3) OR push_bit 8 (ucast (addr ! 2))))
                          2 (ucast (addr ! 1) OR push_bit 8 (ucast (addr ! 0))))
                          3 (word_of_int fid))
                          0 (if add then BIT port else 0))
                          1 GSWIP_TABLE_MAC_BRIDGE_STATIC
                         \<lparr>tbl_valid := add\<rparr>
                 in case gswip_pce_table_entry_write priv mac_bridge of
                      (Some err, priv1) \<Rightarrow>
                        (Some err, dev_err priv1 ''failed to write mac bridge: %d'')
                    | (None, priv1) \<Rightarrow> (None, priv1))))"

definition gswip_port_fdb_add :: "gswip_priv \<Rightarrow> nat \<Rightarrow> u8 list \<Rightarrow> u16 \<Rightarrow> errno option \<times> gswip_priv" where
  "gswip_port_fdb_add priv port addr vid = gswip_port_fdb priv port addr vid True"

definition gswip_port_fdb_del :: "gswip_priv \<Rightarrow> nat \<Rightarrow> u8 list \<Rightarrow> u16 \<Rightarrow> errno option \<times> gswip_priv" where
  "gswip_port_fdb_del priv port addr vid = gswip_port_fdb priv port addr vid False"




section \<open>Notions used in the statements\<close>

text \<open>
  Slot \<open>i\<close> is in the usable range (from \<open>max_ports\<close> up to 63) and bound to
  \<open>bridge\<close>; and slot \<open>i\<close> is the first such slot.
\<close>

definition slot_bound :: "gswip_priv \<Rightarrow> net_device option \<Rightarrow> nat \<Rightarrow> bool" where
  "slot_bound priv bridge i =
     (max_ports (hw_info priv) \<le> i \<and> i < 64 \<and> vlan_bridge (vlans priv i) = bridge)"

definition first_slot :: "gswip_priv \<Rightarrow> net_device option \<Rightarrow> nat \<Rightarrow> bool" where
  "first_slot priv bridge i =
     (slot_bound priv bridge i \<and> (\<forall>j<i. \<not> slot_bound priv bridge j))"

text \<open>
  A static forwarding entry as the hardware holds it: the key is the MAC address in
  three words followed by the flow id; the value is the port map and the static flag.
\<close>

definition fdb_key :: "u8 list \<Rightarrow> u8 \<Rightarrow> u16 list" where
  "fdb_key addr fid =
     [ucast (addr ! 5) OR push_bit 8 (ucast (addr ! 4)),
      ucast (addr ! 3) OR push_bit 8 (ucast (addr ! 2)),
      ucast (addr ! 1) OR push_bit 8 (ucast (addr ! 0)),
      ucast fid, 0, 0, 0, 0]"

definition fdb_row :: "u8 list \<Rightarrow> u8 \<Rightarrow> nat \<Rightarrow> bool \<Rightarrow> pce_row" where
  "fdb_row addr fid port add =
     \<lparr>row_key = fdb_key addr fid,
      row_val = [if add then BIT port else 0, GSWIP_TABLE_MAC_BRIDGE_STATIC, 0, 0, 0],
      row_mask = 0, row_gmap = 0, row_type = False, row_valid = add\<rparr>"


text \<open>
  The first free slot of the usable range; a slot bound to a bridge for a VLAN id, and
  the first such slot; and the slot a VLAN delete works on: the first slot of the bridge
  with the VLAN id when the bridge filters VLANs, the first slot of the bridge otherwise.
\<close>

definition first_free :: "gswip_priv \<Rightarrow> nat \<Rightarrow> bool" where
  "first_free priv i = first_slot priv None i"

definition vlan_slot :: "gswip_priv \<Rightarrow> net_device option \<Rightarrow> u16 \<Rightarrow> nat \<Rightarrow> bool" where
  "vlan_slot priv bridge vid i = (slot_bound priv bridge i \<and> vlan_vid (vlans priv i) = vid)"

definition first_vlan_slot :: "gswip_priv \<Rightarrow> net_device option \<Rightarrow> u16 \<Rightarrow> nat \<Rightarrow> bool" where
  "first_vlan_slot priv bridge vid i =
     (vlan_slot priv bridge vid i \<and> (\<forall>j<i. \<not> vlan_slot priv bridge vid j))"

definition first_leave_slot ::
  "gswip_priv \<Rightarrow> net_device option \<Rightarrow> u16 \<Rightarrow> bool \<Rightarrow> nat \<Rightarrow> bool" where
  "first_leave_slot priv bridge vid vlan_aware i =
     (if vlan_aware then first_vlan_slot priv bridge vid i else first_slot priv bridge i)"

text \<open>
  The scenario of joining bridges that do not filter VLANs one after the other, each
  request a bridge and the port that joins it.
\<close>

fun join_all :: "gswip_priv \<Rightarrow> (net_device \<times> nat) list \<Rightarrow> gswip_priv" where
  "join_all priv [] = priv"
| "join_all priv ((b, port) # rest) =
     join_all (snd (gswip_vlan_add_unaware priv (Some b) port)) rest"

text \<open>
  A forwarding-table entry is static when bit 0 of its value word 1 is set; the port it
  was learned on is the field in bits 7..4 of its value word 0. The entries that aging
  port \<open>p\<close> removes are the valid entries that are not static and were learned on \<open>p\<close>.
\<close>

definition is_static :: "pce_row \<Rightarrow> bool" where
  "is_static r = bit (row_val r ! 1) 0"

definition learned_on :: "pce_row \<Rightarrow> nat" where
  "learned_on r = (unat (row_val r ! 0) div 16) mod 16"

definition fdb_aged :: "nat \<Rightarrow> pce_row \<Rightarrow> bool" where
  "fdb_aged p r = (row_valid r \<and> \<not> is_static r \<and> learned_on r = p)"






section \<open>States used in the examples\<close>

text \<open>
  The two \<open>gsw_hw_info\<close> tables of the platform driver and the one of the MDIO
  driver: seven ports with CPU port 6, and six ports with CPU port 5.
\<close>

definition gswip_xrx200 :: gsw_hw_info where
  "gswip_xrx200 = \<lparr>max_ports = 7, cpu_port = 6\<rparr>"

definition gsw_12x_140 :: gsw_hw_info where
  "gsw_12x_140 = \<lparr>max_ports = 6, cpu_port = 5\<rparr>"

text \<open>A switch with cleared tables and registers that answers every poll in time.\<close>

definition row_clear :: pce_row where
  "row_clear =
     \<lparr>row_key = replicate 8 0, row_val = replicate 5 0, row_mask = 0, row_gmap = 0,
      row_type = False, row_valid = False\<rparr>"

definition hw_clear :: gswip_hw where
  "hw_clear =
     \<lparr>pce_tbl = (\<lambda>t i. row_clear), ks_index = (\<lambda>t k. 0), switch_regs = (\<lambda>r. 0),
      mdio_regs = (\<lambda>r. 0), polls = []\<rparr>"

text \<open>
  A switch whose port 6 is the CPU port, with user ports 1 and 2 in bridge 1 and the
  other user ports in no bridge; bridge 1 filters VLANs.
\<close>

definition ds_example :: dsa_switch where
  "ds_example =
     \<lparr>dp_type = (\<lambda>p. if p = 6 then DSA_PORT_TYPE_CPU else DSA_PORT_TYPE_USER),
      bridge_dev = (\<lambda>p. if p = 1 \<or> p = 2 then Some 1 else None),
      br_vlan_enabled = (\<lambda>b. b = 1)\<rparr>"

text \<open>The private data as the probe leaves it: allocated zeroed, no slot bound.\<close>

definition priv_probe :: "gsw_hw_info \<Rightarrow> dsa_switch \<Rightarrow> gswip_hw \<Rightarrow> gswip_priv" where
  "priv_probe info d h =
     \<lparr>hw_info = info, ds = d,
      vlans = (\<lambda>i. \<lparr>vlan_bridge = None, vlan_vid = 0, vlan_fid = 0\<rparr>),
      port_vlan_filter = 0, hw = h, klog = []\<rparr>"

definition priv_example :: gswip_priv where
  "priv_example = priv_probe gswip_xrx200 ds_example hw_clear"

text \<open>The example with bridge 1 bound to slot 7 (VLAN 10, flow id 7).\<close>

definition priv_one_slot :: gswip_priv where
  "priv_one_slot =
     priv_example\<lparr>vlans := (vlans priv_example)
       (7 := \<lparr>vlan_bridge = Some 1, vlan_vid = 10, vlan_fid = 7\<rparr>)\<rparr>"




text \<open>The example after port 2 has been added, tagged, to VLAN 10 of bridge 1.\<close>

definition priv_port2_vlan10 :: gswip_priv where
  "priv_port2_vlan10 = snd (gswip_vlan_add_aware priv_example (Some 1) 2 10 False False)"

text \<open>The example with every slot bound (to a bridge 9).\<close>

definition priv_full :: gswip_priv where
  "priv_full =
     priv_example\<lparr>vlans := (\<lambda>i. \<lparr>vlan_bridge = Some 9, vlan_vid = 0, vlan_fid = 0\<rparr>)\<rparr>"

text \<open>
  A forwarding-table entry as the hardware learns it on a port, and the example with three
  entries in the forwarding table: at index 0 an entry learned on port 2, at index 1 a
  static entry for port 2, at index 2 an entry learned on port 3.
\<close>

definition learned_row :: "u8 list \<Rightarrow> u8 \<Rightarrow> nat \<Rightarrow> pce_row" where
  "learned_row addr fid port =
     \<lparr>row_key = fdb_key addr fid,
      row_val = [push_bit 4 (of_nat port), 0, 0, 0, 0],
      row_mask = 0, row_gmap = 0, row_type = False, row_valid = True\<rparr>"

definition priv_fdb :: gswip_priv where
  "priv_fdb =
     priv_example\<lparr>hw := hw_clear\<lparr>pce_tbl := (pce_tbl hw_clear)
       (GSWIP_TABLE_MAC_BRIDGE := (\<lambda>i. row_clear)
          (0 := learned_row [0x00, 0x11, 0x22, 0x33, 0x44, 0x55] 3 2,
           1 := fdb_row [0xaa, 0xbb, 0xcc, 0xdd, 0xee, 0xff] 3 2 True,
           2 := learned_row [0x00, 0x11, 0x22, 0x33, 0x44, 0x66] 3 3))\<rparr>\<rparr>"

section \<open>Basic facts\<close>

lemma and_BIT_iff: "(w AND BIT n \<noteq> 0) = bit (w::'a::len word) n"
  by (simp add: BIT_def bit_iff_and_push_bit_not_eq_0)

lemma bit_BIT_iff: "bit (BIT p :: 'a::len word) q = (q = p \<and> q < LENGTH('a))"
  by (auto simp: BIT_def bit_exp_iff possible_bit_word)

text \<open>The first index of an ascending range that satisfies a test.\<close>

lemma find_upt_Some:
  "find P [m..<n] = Some i \<longleftrightarrow>
     (m \<le> i \<and> i < n \<and> P i \<and> (\<forall>j. m \<le> j \<and> j < i \<longrightarrow> \<not> P j))"
proof
  assume "find P [m..<n] = Some i"
  then obtain k where k: "k < n - m" "P ([m..<n] ! k)" "i = [m..<n] ! k"
    and least: "\<forall>j<k. \<not> P ([m..<n] ! j)"
    by (auto simp: find_Some_iff)
  from k have i: "i = m + k" by simp
  have "\<not> P j" if "m \<le> j" "j < i" for j
  proof -
    from that i have "j - m < k" by arith
    with least have "\<not> P ([m..<n] ! (j - m))" by blast
    moreover from that i k have "[m..<n] ! (j - m) = j" by simp
    ultimately show ?thesis by simp
  qed
  with k i show "m \<le> i \<and> i < n \<and> P i \<and> (\<forall>j. m \<le> j \<and> j < i \<longrightarrow> \<not> P j)"
    by auto
next
  assume a: "m \<le> i \<and> i < n \<and> P i \<and> (\<forall>j. m \<le> j \<and> j < i \<longrightarrow> \<not> P j)"
  then have "i - m < length [m..<n]" "P ([m..<n] ! (i - m))" "i = [m..<n] ! (i - m)"
    "\<forall>j<i - m. \<not> P ([m..<n] ! j)"
    by auto
  then show "find P [m..<n] = Some i"
    unfolding find_Some_iff by blast
qed

lemma find_upt_None:
  "find P [m..<n] = None \<longleftrightarrow> (\<forall>i. m \<le> i \<and> i < n \<longrightarrow> \<not> P i)"
  by (auto simp: find_None_iff)

subsection \<open>What the transport leaves alone\<close>

lemma polls_hw_table_store [simp]: "polls (hw_table_store h tbl) = polls h"
  by (simp add: hw_table_store_def)

lemma switch_regs_hw_table_store [simp]: "switch_regs (hw_table_store h tbl) = switch_regs h"
  by (simp add: hw_table_store_def)

lemma r_timeout_frame [simp]:
  "vlans (snd (gswip_switch_r_timeout priv off c)) = vlans priv"
  "hw_info (snd (gswip_switch_r_timeout priv off c)) = hw_info priv"
  "ds (snd (gswip_switch_r_timeout priv off c)) = ds priv"
  "klog (snd (gswip_switch_r_timeout priv off c)) = klog priv"
  "port_vlan_filter (snd (gswip_switch_r_timeout priv off c)) = port_vlan_filter priv"
  by (simp_all add: gswip_switch_r_timeout_def split: list.splits)

lemma r_timeout_ok [simp]:
  "polls (hw priv) = [] \<Longrightarrow> gswip_switch_r_timeout priv off c = (None, priv)"
  by (simp add: gswip_switch_r_timeout_def)

lemma write_frame [simp]:
  "vlans (snd (gswip_pce_table_entry_write priv tbl)) = vlans priv"
  "hw_info (snd (gswip_pce_table_entry_write priv tbl)) = hw_info priv"
  "ds (snd (gswip_pce_table_entry_write priv tbl)) = ds priv"
  "klog (snd (gswip_pce_table_entry_write priv tbl)) = klog priv"
  "port_vlan_filter (snd (gswip_pce_table_entry_write priv tbl)) = port_vlan_filter priv"
  by (simp_all add: gswip_pce_table_entry_write_def split_def split: option.splits)

lemma write_ok:
  "polls (hw priv) = [] \<Longrightarrow>
   gswip_pce_table_entry_write priv tbl =
     (None, priv\<lparr>hw := hw_table_store (hw priv) tbl\<rparr>)"
  by (simp add: gswip_pce_table_entry_write_def)

lemma read_frame [simp]:
  "vlans (fst (snd (gswip_pce_table_entry_read priv tbl))) = vlans priv"
  "hw_info (fst (snd (gswip_pce_table_entry_read priv tbl))) = hw_info priv"
  "ds (fst (snd (gswip_pce_table_entry_read priv tbl))) = ds priv"
  "klog (fst (snd (gswip_pce_table_entry_read priv tbl))) = klog priv"
  "port_vlan_filter (fst (snd (gswip_pce_table_entry_read priv tbl))) = port_vlan_filter priv"
  by (simp_all add: gswip_pce_table_entry_read_def split_def Let_def split: option.splits)

lemma read_ok:
  "polls (hw priv) = [] \<Longrightarrow>
   gswip_pce_table_entry_read priv tbl =
     (let row = pce_tbl (hw priv) (tbl_table tbl) (hw_row_index (hw priv) tbl)
      in (None, priv,
          tbl\<lparr>tbl_key := row_key row, tbl_val := row_val row,
              tbl_mask := row_mask row, tbl_type := row_type row,
              tbl_valid := row_valid row, tbl_gmap := ucast (row_gmap row)\<rparr>))"
  by (simp add: gswip_pce_table_entry_read_def)

section \<open>VLAN filtering cannot be toggled on a bridged port\<close>

lemma vctrl_pctrl_distinct: "GSWIP_PCE_VCTRL p \<noteq> GSWIP_PCE_PCTRL_0p p"
  by (simp add: GSWIP_PCE_VCTRL_def GSWIP_PCE_PCTRL_0p_def)

text \<open>
  C9. The current setting of a port is its bit in \<open>port_vlan_filter\<close>. On a port that
  is in a bridge, a request for the other setting returns \<open>-EIO\<close> and leaves the
  driver state and every register as they were. Every other request (the same
  setting, or a port in no bridge) returns 0 and programs the port: the VLAN security
  bit of the port's VLAN control register and the transparent-VLAN-mode bit of its port
  control register are set exactly when filtering is switched off.
\<close>

theorem vlan_filtering_toggle_rejected:
  "(bridge_dev (ds priv) port \<noteq> None \<and> bit (port_vlan_filter priv) port \<noteq> vlan_filtering \<longrightarrow>
      gswip_port_vlan_filtering priv port vlan_filtering = (Some EIO, priv)) \<and>
   (bridge_dev (ds priv) port = None \<or> bit (port_vlan_filter priv) port = vlan_filtering \<longrightarrow>
      fst (gswip_port_vlan_filtering priv port vlan_filtering) = None \<and>
      bit (switch_regs (hw (snd (gswip_port_vlan_filtering priv port vlan_filtering)))
             (GSWIP_PCE_VCTRL port)) 5 = (\<not> vlan_filtering) \<and>
      bit (switch_regs (hw (snd (gswip_port_vlan_filtering priv port vlan_filtering)))
             (GSWIP_PCE_PCTRL_0p port)) 5 = (\<not> vlan_filtering))"
  by (simp add: gswip_port_vlan_filtering_def Let_def and_BIT_iff gswip_switch_mask_def
      gswip_switch_w_def gswip_switch_r_def vctrl_pctrl_distinct
      GSWIP_PCE_VCTRL_VSR_def GSWIP_PCE_VCTRL_UVR_def GSWIP_PCE_VCTRL_VIMR_def
      GSWIP_PCE_VCTRL_VEMR_def GSWIP_PCE_PCTRL_0_TVM_def
      bit_or_iff bit_and_iff bit_not_iff bit_BIT_iff)

text \<open>
  Port 1 of the example is in bridge 1 with filtering off: switching it on is refused.
  Port 3 is in no bridge: the same request goes through.
\<close>

theorem vlan_filtering_toggle_rejected_witness:
  "gswip_port_vlan_filtering priv_example 1 True = (Some EIO, priv_example) \<and>
   fst (gswip_port_vlan_filtering priv_example 3 True) = None \<and>
   \<not> bit (switch_regs (hw (snd (gswip_port_vlan_filtering priv_example 3 True)))
            (GSWIP_PCE_VCTRL 3)) 5"
  using vlan_filtering_toggle_rejected [of priv_example 1 True]
    vlan_filtering_toggle_rejected [of priv_example 3 True]
  by (simp add: priv_example_def priv_probe_def ds_example_def)

subsection \<open>Evaluating table entries\<close>

lemma list_update_Cons_numeral:
  "(x # xs)[numeral k := y] = x # xs[pred_numeral k := y]"
  by (simp add: numeral_eq_Suc)

lemma list_update_Cons_1: "(x # xs)[1 := y] = x # xs[0 := y]"
  by simp

lemma replicate_8: "replicate 8 x = [x, x, x, x, x, x, x, x]"
  by (simp add: numeral_eq_Suc)

lemma replicate_5: "replicate 5 x = [x, x, x, x, x]"
  by (simp add: numeral_eq_Suc)

lemmas entry_simps = key_set_def val_set_def val_or_def val_and_def pce_entry0_def
  replicate_8 replicate_5 list_update_Cons_numeral list_update_Cons_1

lemmas example_simps = priv_example_def priv_probe_def ds_example_def hw_clear_def
  row_clear_def gswip_xrx200_def

section \<open>Static forwarding entries take the flow id of the bridge's first slot\<close>

lemma find_first_slot:
  "find (\<lambda>i. vlan_bridge (vlans priv i) = bridge) [max_ports (hw_info priv)..<64] = Some i
     \<longleftrightarrow> first_slot priv bridge i"
  by (auto simp: find_upt_Some first_slot_def slot_bound_def)

lemma find_no_slot:
  "find (\<lambda>i. vlan_bridge (vlans priv i) = bridge) [max_ports (hw_info priv)..<64] = None
     \<longleftrightarrow> (\<forall>i. \<not> slot_bound priv bridge i)"
  by (auto simp: find_upt_None slot_bound_def)

lemma fdb_no_bridge:
  "bridge_dev (ds priv) port = None \<Longrightarrow>
   gswip_port_fdb priv port addr vid add = (Some EINVAL, priv)"
  by (simp add: gswip_port_fdb_def)

lemma fdb_no_slot:
  assumes "bridge_dev (ds priv) port = Some b" "\<forall>i. \<not> slot_bound priv (Some b) i"
  shows "fst (gswip_port_fdb priv port addr vid add) = Some EINVAL \<and>
         hw (snd (gswip_port_fdb priv port addr vid add)) = hw priv \<and>
         vlans (snd (gswip_port_fdb priv port addr vid add)) = vlans priv"
proof -
  from assms(2) have "find (\<lambda>i. vlan_bridge (vlans priv i) = Some b)
      [max_ports (hw_info priv)..<64] = None"
    by (simp add: find_no_slot)
  with assms(1) show ?thesis
    by (simp add: gswip_port_fdb_def dev_err_def)
qed

lemma fdb_written:
  assumes "bridge_dev (ds priv) port = Some b" "first_slot priv (Some b) i"
    "polls (hw priv) = []"
  shows "fst (gswip_port_fdb priv port addr vid add) = None \<and>
         pce_tbl (hw (snd (gswip_port_fdb priv port addr vid add))) =
           (pce_tbl (hw priv))(GSWIP_TABLE_MAC_BRIDGE :=
              (pce_tbl (hw priv) GSWIP_TABLE_MAC_BRIDGE)
                (ks_index (hw priv) (pce_tbl (hw priv) GSWIP_TABLE_MAC_BRIDGE)
                   (fdb_key addr (vlan_fid (vlans priv i))) :=
                 fdb_row addr (vlan_fid (vlans priv i)) port add))"
proof -
  from assms(2) have "find (\<lambda>i. vlan_bridge (vlans priv i) = Some b)
      [max_ports (hw_info priv)..<64] = Some i"
    by (simp add: find_first_slot)
  with assms(1,3) show ?thesis
    by (simp add: gswip_port_fdb_def write_ok Let_def hw_table_store_def hw_row_index_def
        entry_simps fdb_key_def fdb_row_def)
qed

text \<open>
  C10. A static add or delete on a port (the hardware answering every poll in time):
  \<^item> a port in no bridge gets \<open>-EINVAL\<close> and nothing changes;
  \<^item> a port whose bridge has no slot in the usable range gets \<open>-EINVAL\<close>, and neither
    the hardware nor the slot array changes;
  \<^item> otherwise the entry is written in key-search mode with the flow id of the first
    slot of the port's bridge in its key, and no other row of the table changes.
\<close>

theorem port_fdb_flow_id_of_first_slot:
  "(bridge_dev (ds priv) port = None \<longrightarrow>
      gswip_port_fdb priv port addr vid add = (Some EINVAL, priv)) \<and>
   (\<forall>b. bridge_dev (ds priv) port = Some b \<and> (\<forall>i. \<not> slot_bound priv (Some b) i) \<longrightarrow>
      fst (gswip_port_fdb priv port addr vid add) = Some EINVAL \<and>
      hw (snd (gswip_port_fdb priv port addr vid add)) = hw priv \<and>
      vlans (snd (gswip_port_fdb priv port addr vid add)) = vlans priv) \<and>
   (\<forall>b i. bridge_dev (ds priv) port = Some b \<and> first_slot priv (Some b) i \<and>
          polls (hw priv) = [] \<longrightarrow>
      fst (gswip_port_fdb priv port addr vid add) = None \<and>
      pce_tbl (hw (snd (gswip_port_fdb priv port addr vid add))) =
        (pce_tbl (hw priv))(GSWIP_TABLE_MAC_BRIDGE :=
           (pce_tbl (hw priv) GSWIP_TABLE_MAC_BRIDGE)
             (ks_index (hw priv) (pce_tbl (hw priv) GSWIP_TABLE_MAC_BRIDGE)
                (fdb_key addr (vlan_fid (vlans priv i))) :=
              fdb_row addr (vlan_fid (vlans priv i)) port add)))"
  using fdb_no_bridge fdb_no_slot fdb_written by blast

text \<open>
  In the example ports 1 and 2 are in bridge 1 and port 3 is in no bridge. With no slot
  bound, an add on port 2 is refused; on port 3 it is refused as well; with slot 7 bound
  to bridge 1 (flow id 7) the add on port 2 writes a row whose fourth key word is 7.
\<close>

theorem port_fdb_flow_id_of_first_slot_witness:
  "gswip_port_fdb priv_example 3 [0xaa, 0xbb, 0xcc, 0xdd, 0xee, 0xff] 0 True
     = (Some EINVAL, priv_example) \<and>
   fst (gswip_port_fdb priv_example 2 [0xaa, 0xbb, 0xcc, 0xdd, 0xee, 0xff] 0 True)
     = Some EINVAL \<and>
   fst (gswip_port_fdb priv_one_slot 2 [0xaa, 0xbb, 0xcc, 0xdd, 0xee, 0xff] 0 True) = None \<and>
   row_key (pce_tbl (hw (snd (gswip_port_fdb priv_one_slot 2
       [0xaa, 0xbb, 0xcc, 0xdd, 0xee, 0xff] 0 True))) GSWIP_TABLE_MAC_BRIDGE 0) ! 3 = 7"
proof -
  let ?mac = "[0xaa, 0xbb, 0xcc, 0xdd, 0xee, 0xff] :: u8 list"
  note T = port_fdb_flow_id_of_first_slot
  have a: "bridge_dev (ds priv_example) 3 = None"
    by (simp add: example_simps)
  have b: "bridge_dev (ds priv_example) 2 = Some 1 \<and>
           (\<forall>i. \<not> slot_bound priv_example (Some 1) i)"
    by (simp add: example_simps slot_bound_def)
  have c: "bridge_dev (ds priv_one_slot) 2 = Some 1 \<and> first_slot priv_one_slot (Some 1) 7 \<and>
           polls (hw priv_one_slot) = []"
    by (auto simp: priv_one_slot_def example_simps first_slot_def slot_bound_def)
  have f: "vlan_fid (vlans priv_one_slot 7) = 7"
    by (simp add: priv_one_slot_def)
  have k: "ks_index (hw priv_one_slot) t kw = 0" for t kw
    by (simp add: priv_one_slot_def example_simps)
  from T [of priv_example 3 ?mac 0 True] a
  have 1: "gswip_port_fdb priv_example 3 ?mac 0 True = (Some EINVAL, priv_example)"
    by blast
  from T [of priv_example 2 ?mac 0 True] b
  have 2: "fst (gswip_port_fdb priv_example 2 ?mac 0 True) = Some EINVAL"
    by blast
  from T [of priv_one_slot 2 ?mac 0 True] c
  have 3: "fst (gswip_port_fdb priv_one_slot 2 ?mac 0 True) = None \<and>
      pce_tbl (hw (snd (gswip_port_fdb priv_one_slot 2 ?mac 0 True))) =
        (pce_tbl (hw priv_one_slot))(GSWIP_TABLE_MAC_BRIDGE :=
           (pce_tbl (hw priv_one_slot) GSWIP_TABLE_MAC_BRIDGE)
             (ks_index (hw priv_one_slot) (pce_tbl (hw priv_one_slot) GSWIP_TABLE_MAC_BRIDGE)
                (fdb_key ?mac (vlan_fid (vlans priv_one_slot 7))) :=
              fdb_row ?mac (vlan_fid (vlans priv_one_slot 7)) 2 True))"
    by blast
  from 3 have "row_key (pce_tbl (hw (snd (gswip_port_fdb priv_one_slot 2 ?mac 0 True)))
       GSWIP_TABLE_MAC_BRIDGE 0) ! 3 = 7"
    by (simp add: f k fdb_row_def fdb_key_def)
  with 1 2 3 show ?thesis by blast
qed

section \<open>The single-port isolation slot\<close>

lemma unat_of_nat_u16: "n < 65536 \<Longrightarrow> unat (of_nat n :: u16) = n"
  by (simp add: unat_of_nat)



lemma tables_distinct [simp]:
  "GSWIP_TABLE_ACTIVE_VLAN \<noteq> GSWIP_TABLE_VLAN_MAPPING"
  "GSWIP_TABLE_VLAN_MAPPING \<noteq> GSWIP_TABLE_ACTIVE_VLAN"
  "GSWIP_TABLE_ACTIVE_VLAN \<noteq> GSWIP_TABLE_MAC_BRIDGE"
  "GSWIP_TABLE_VLAN_MAPPING \<noteq> GSWIP_TABLE_MAC_BRIDGE"
  by (simp_all add: GSWIP_TABLE_ACTIVE_VLAN_def GSWIP_TABLE_VLAN_MAPPING_def GSWIP_TABLE_MAC_BRIDGE_def)






section \<open>The slot pool and the slot array\<close>

text \<open>The loop equations are unfolded by hand, at the index they are needed for.\<close>

declare gswip_vlan_add_aware_loop.simps [simp del]
declare gswip_port_fast_age_loop.simps [simp del]

lemma dev_err_frame [simp]:
  "vlans (dev_err priv msg) = vlans priv"
  "hw (dev_err priv msg) = hw priv"
  "hw_info (dev_err priv msg) = hw_info priv"
  "ds (dev_err priv msg) = ds priv"
  "port_vlan_filter (dev_err priv msg) = port_vlan_filter priv"
  by (simp_all add: dev_err_def)

lemma write_eqD:
  "gswip_pce_table_entry_write priv tbl = (r, p) \<Longrightarrow>
   vlans p = vlans priv \<and> hw_info p = hw_info priv \<and> ds p = ds priv \<and>
   port_vlan_filter p = port_vlan_filter priv"
  using write_frame [of priv tbl] by simp

lemma read_eqD:
  "gswip_pce_table_entry_read priv tbl = (r, p, e) \<Longrightarrow>
   vlans p = vlans priv \<and> hw_info p = hw_info priv \<and> ds p = ds priv \<and>
   port_vlan_filter p = port_vlan_filter priv"
  using read_frame [of priv tbl] by simp

lemma active_create_cases:
  "case gswip_vlan_active_create priv bridge fid vid of
     (Inl e, priv') \<Rightarrow> vlans priv' = vlans priv
   | (Inr idx, priv') \<Rightarrow>
       vlans priv' = (vlans priv)(idx := \<lparr>vlan_bridge = bridge, vlan_vid = vid,
          vlan_fid = word_of_int (if fid = - 1 then int idx else fid)\<rparr>) \<and>
       max_ports (hw_info priv) \<le> idx \<and> idx < 64 \<and> vlan_bridge (vlans priv idx) = None \<and>
       (\<forall>j. max_ports (hw_info priv) \<le> j \<and> j < idx \<longrightarrow> vlan_bridge (vlans priv j) \<noteq> None)"
  by (auto simp: gswip_vlan_active_create_def Let_def find_upt_Some
      split: option.splits prod.splits dest: write_eqD)


lemma active_create_vlans:
  "fst (gswip_vlan_active_create priv bridge fid vid) = Inr idx \<Longrightarrow>
   vlans (snd (gswip_vlan_active_create priv bridge fid vid)) =
     (vlans priv)(idx := \<lparr>vlan_bridge = bridge, vlan_vid = vid,
        vlan_fid = word_of_int (if fid = - 1 then int idx else fid)\<rparr>) \<and>
   max_ports (hw_info priv) \<le> idx \<and> idx < 64 \<and> vlan_bridge (vlans priv idx) = None \<and>
   (\<forall>j. max_ports (hw_info priv) \<le> j \<and> j < idx \<longrightarrow> vlan_bridge (vlans priv j) \<noteq> None)"
  using active_create_cases [where priv = priv and bridge = bridge and fid = fid and vid = vid] by (auto split: prod.splits sum.splits)



lemma active_remove_frame [simp]:
  "hw_info (snd (gswip_vlan_active_remove priv idx)) = hw_info priv"
  "ds (snd (gswip_vlan_active_remove priv idx)) = ds priv"
  "port_vlan_filter (snd (gswip_vlan_active_remove priv idx)) = port_vlan_filter priv"
  by (simp_all add: gswip_vlan_active_remove_def Let_def split_def)

lemma aware_loop_frame:
  "vlans (snd (snd (gswip_vlan_add_aware_loop priv bridge vid i fid))) = vlans priv \<and>
   hw (snd (snd (gswip_vlan_add_aware_loop priv bridge vid i fid))) = hw priv \<and>
   hw_info (snd (snd (gswip_vlan_add_aware_loop priv bridge vid i fid))) = hw_info priv \<and>
   ds (snd (snd (gswip_vlan_add_aware_loop priv bridge vid i fid))) = ds priv \<and>
   port_vlan_filter (snd (snd (gswip_vlan_add_aware_loop priv bridge vid i fid))) = port_vlan_filter priv"
proof (induction priv bridge vid i fid rule: gswip_vlan_add_aware_loop.induct)
  case (1 priv bridge vid i fid)
  show ?case
    using 1
    by (simp add: gswip_vlan_add_aware_loop.simps [of priv bridge vid i fid] Let_def)
qed






lemma switch_w_frame [simp]:
  "vlans (gswip_switch_w priv v off) = vlans priv"
  "hw_info (gswip_switch_w priv v off) = hw_info priv"
  "ds (gswip_switch_w priv v off) = ds priv"
  "port_vlan_filter (gswip_switch_w priv v off) = port_vlan_filter priv"
  "pce_tbl (hw (gswip_switch_w priv v off)) = pce_tbl (hw priv)"
  "polls (hw (gswip_switch_w priv v off)) = polls (hw priv)"
  by (simp_all add: gswip_switch_w_def)




lemmas transport_defs = gswip_pce_table_entry_write_def gswip_pce_table_entry_read_def
  gswip_switch_r_timeout_def hw_table_store_def hw_row_index_def

section \<open>Failed writes and the bookkeeping\<close>




section \<open>One flow id per bridge\<close>



section \<open>What the translator does when the hardware answers\<close>

lemma find_first_free:
  "find (\<lambda>i. vlan_bridge (vlans priv i) = None) [max_ports (hw_info priv)..<64] = Some i
     \<longleftrightarrow> first_free priv i"
  by (simp add: first_free_def find_first_slot)

lemma find_first_vlan_slot:
  "find (\<lambda>k. vlan_bridge (vlans priv k) = bridge \<and> vlan_vid (vlans priv k) = vid)
     [max_ports (hw_info priv)..<64] = Some i \<longleftrightarrow> first_vlan_slot priv bridge vid i"
  by (auto simp: find_upt_Some first_vlan_slot_def vlan_slot_def slot_bound_def)


lemma unat_of_nat_slot: "idx < 64 \<Longrightarrow> unat (of_nat idx :: u16) = idx"
  by (simp add: unat_of_nat_u16)

lemma first_free_lt: "first_free priv idx \<Longrightarrow> idx < 64"
  by (simp add: first_free_def first_slot_def slot_bound_def)

lemma active_create_ok:
  assumes "polls (hw priv) = []" "first_free priv idx"
  shows "gswip_vlan_active_create priv bridge fid vid =
    (Inr idx,
     priv\<lparr>hw := (hw priv)\<lparr>pce_tbl := (pce_tbl (hw priv))
               (GSWIP_TABLE_ACTIVE_VLAN := (pce_tbl (hw priv) GSWIP_TABLE_ACTIVE_VLAN)
                  (idx := \<lparr>row_key = [vid, 0, 0, 0, 0, 0, 0, 0],
                     row_val = [word_of_int (if fid = - 1 then int idx else fid), 0, 0, 0, 0],
                     row_mask = 0, row_gmap = 0, row_type = False, row_valid = True\<rparr>))\<rparr>,
          vlans := (vlans priv)(idx := \<lparr>vlan_bridge = bridge, vlan_vid = vid,
             vlan_fid = word_of_int (if fid = - 1 then int idx else fid)\<rparr>)\<rparr>)"
proof -
  from assms(2) have f: "find (\<lambda>i. vlan_bridge (vlans priv i) = None)
      [max_ports (hw_info priv)..<64] = Some idx"
    by (simp add: find_first_free)
  from assms(2) have lt: "idx < 64" by (rule first_free_lt)
  show ?thesis
    using assms(1) lt
    by (simp add: gswip_vlan_active_create_def f write_ok Let_def hw_table_store_def
        hw_row_index_def entry_simps unat_of_nat_slot)
qed

lemma ucast_gmap: "ucast (ucast (g :: 4 word) :: 8 word) = g"
  by (rule ucast_up_ucast_id) (simp add: is_up)

lemma row_val_update_eq:
  "r\<lparr>row_val := v\<rparr> =
     \<lparr>row_key = row_key r, row_val = v, row_mask = row_mask r, row_gmap = row_gmap r,
      row_type = row_type r, row_valid = row_valid r\<rparr>"
  by simp

lemma row_valid_update_eq:
  "r\<lparr>row_valid := v\<rparr> =
     \<lparr>row_key = row_key r, row_val = row_val r, row_mask = row_mask r, row_gmap = row_gmap r,
      row_type = row_type r, row_valid = v\<rparr>"
  by simp

lemma length_5_conv: "length xs = 5 \<Longrightarrow> \<exists>a b c d e. xs = [a, b, c, d, e]"
  by (auto simp: numeral_eq_Suc length_Suc_conv)

lemma aware_loop_hw:
  "hw (snd (snd (gswip_vlan_add_aware_loop priv bridge vid i fid))) = hw priv"
  using aware_loop_frame [of priv bridge vid i fid] by simp




lemma find_first_leave_slot:
  "find (\<lambda>i. vlan_bridge (vlans priv i) = bridge \<and>
               (\<not> vlan_aware \<or> vlan_vid (vlans priv i) = vid))
     [max_ports (hw_info priv)..<64] = Some i \<longleftrightarrow>
   first_leave_slot priv bridge vid vlan_aware i"
  by (cases vlan_aware)
    (simp_all add: first_leave_slot_def find_first_vlan_slot find_first_slot)

lemma vlan_remove_frame:
  "hw_info (snd (gswip_vlan_remove priv bridge port vid pvid vlan_aware)) = hw_info priv \<and>
   ds (snd (gswip_vlan_remove priv bridge port vid pvid vlan_aware)) = ds priv \<and>
   port_vlan_filter (snd (gswip_vlan_remove priv bridge port vid pvid vlan_aware)) =
     port_vlan_filter priv"
  by (simp add: gswip_vlan_remove_def Let_def split_def split: option.splits)


lemma active_remove_ok:
  assumes "polls (hw priv) = []" "idx < 64"
  shows "gswip_vlan_active_remove priv idx =
    (None,
     priv\<lparr>hw := (hw priv)\<lparr>pce_tbl := (pce_tbl (hw priv))
               (GSWIP_TABLE_ACTIVE_VLAN := (pce_tbl (hw priv) GSWIP_TABLE_ACTIVE_VLAN)
                  (idx := \<lparr>row_key = [0, 0, 0, 0, 0, 0, 0, 0], row_val = [0, 0, 0, 0, 0],
                     row_mask = 0, row_gmap = 0, row_type = False, row_valid = False\<rparr>))\<rparr>,
          vlans := (vlans priv)(idx := (vlans priv idx)\<lparr>vlan_bridge := None\<rparr>)\<rparr>)"
  using assms
  by (simp add: gswip_vlan_active_remove_def write_ok Let_def hw_table_store_def
      hw_row_index_def entry_simps unat_of_nat_slot)

lemma vlan_remove_ok:
  assumes p: "polls (hw priv) = []" and s: "first_leave_slot priv bridge vid vlan_aware idx"
    and len: "length (row_val (pce_tbl (hw priv) GSWIP_TABLE_VLAN_MAPPING idx)) = 5"
  shows "fst (gswip_vlan_remove priv bridge port vid pvid vlan_aware) = None \<and>
    polls (hw (snd (gswip_vlan_remove priv bridge port vid pvid vlan_aware))) = [] \<and>
    pce_tbl (hw (snd (gswip_vlan_remove priv bridge port vid pvid vlan_aware)))
        GSWIP_TABLE_VLAN_MAPPING =
      (pce_tbl (hw priv) GSWIP_TABLE_VLAN_MAPPING)(idx :=
         (pce_tbl (hw priv) GSWIP_TABLE_VLAN_MAPPING idx)\<lparr>row_val :=
            [row_val (pce_tbl (hw priv) GSWIP_TABLE_VLAN_MAPPING idx) ! 0,
             row_val (pce_tbl (hw priv) GSWIP_TABLE_VLAN_MAPPING idx) ! 1 AND NOT (BIT port),
             row_val (pce_tbl (hw priv) GSWIP_TABLE_VLAN_MAPPING idx) ! 2 AND NOT (BIT port),
             row_val (pce_tbl (hw priv) GSWIP_TABLE_VLAN_MAPPING idx) ! 3,
             row_val (pce_tbl (hw priv) GSWIP_TABLE_VLAN_MAPPING idx) ! 4]\<rparr>) \<and>
    (if (row_val (pce_tbl (hw priv) GSWIP_TABLE_VLAN_MAPPING idx) ! 1 AND NOT (BIT port))
          AND NOT (BIT (cpu_port (hw_info priv))) = 0
     then vlans (snd (gswip_vlan_remove priv bridge port vid pvid vlan_aware)) =
            (vlans priv)(idx := (vlans priv idx)\<lparr>vlan_bridge := None\<rparr>) \<and>
          pce_tbl (hw (snd (gswip_vlan_remove priv bridge port vid pvid vlan_aware)))
              GSWIP_TABLE_ACTIVE_VLAN =
            (pce_tbl (hw priv) GSWIP_TABLE_ACTIVE_VLAN)(idx :=
               \<lparr>row_key = [0, 0, 0, 0, 0, 0, 0, 0], row_val = [0, 0, 0, 0, 0],
                row_mask = 0, row_gmap = 0, row_type = False, row_valid = False\<rparr>)
     else vlans (snd (gswip_vlan_remove priv bridge port vid pvid vlan_aware)) = vlans priv \<and>
          pce_tbl (hw (snd (gswip_vlan_remove priv bridge port vid pvid vlan_aware)))
              GSWIP_TABLE_ACTIVE_VLAN = pce_tbl (hw priv) GSWIP_TABLE_ACTIVE_VLAN) \<and>
    switch_regs (hw (snd (gswip_vlan_remove priv bridge port vid pvid vlan_aware))) =
      (if pvid then (switch_regs (hw priv))(GSWIP_PCE_DEFPVID port := 0)
       else switch_regs (hw priv))"
proof -
  have f: "find (\<lambda>i. vlan_bridge (vlans priv i) = bridge \<and>
               (vlan_aware \<longrightarrow> vlan_vid (vlans priv i) = vid))
     [max_ports (hw_info priv)..<64] = Some idx"
    using find_first_leave_slot [THEN iffD2, OF s] by simp
  from s have lt: "idx < 64"
    by (auto simp: first_leave_slot_def first_vlan_slot_def vlan_slot_def first_slot_def
        slot_bound_def split: if_splits)
  from len obtain a b c d e where
    "row_val (pce_tbl (hw priv) GSWIP_TABLE_VLAN_MAPPING idx) = [a, b, c, d, e]"
    using length_5_conv by blast
  then show ?thesis
    using p lt
    by (simp add: gswip_vlan_remove_def f read_ok write_ok Let_def hw_table_store_def
        hw_row_index_def entry_simps unat_of_nat_slot gswip_switch_w_def ucast_gmap
        active_remove_ok row_val_update_eq)
qed

section \<open>The flow id of a bridge across the translator's operations\<close>






lemmas eval_defs = gswip_vlan_add_aware_def gswip_vlan_active_create_def
  gswip_vlan_add_aware_loop.simps transport_defs Let_def dev_err_def entry_simps
  gswip_switch_w_def



section \<open>Membership after a VLAN add\<close>

lemma nth_simps5:
  "[a, b, c, d, e] ! 0 = a" "[a, b, c, d, e] ! 1 = b" "[a, b, c, d, e] ! 2 = c"
  by simp_all

lemma bit_u16_lt: "bit (w :: u16) q \<Longrightarrow> q < 16"
  using bit_imp_le_length [of w q] by simp





section \<open>VLAN delete and the reuse of a released slot\<close>

lemma and_not_BIT_eq_0: "(w AND NOT (BIT c) = 0) = (\<forall>q. bit (w :: u16) q \<longrightarrow> q = c)"
  by (auto simp: bit_eq_iff bit_and_iff bit_not_iff bit_BIT_iff dest: bit_u16_lt)

lemma first_free_exists:
  assumes "max_ports (hw_info priv) \<le> idx" "idx < 64" "vlan_bridge (vlans priv idx) = None"
  shows "\<exists>k. first_free priv k \<and> k \<le> idx"
proof -
  from assms have "find (\<lambda>i. vlan_bridge (vlans priv i) = None)
      [max_ports (hw_info priv)..<64] \<noteq> None"
    by (auto simp: find_upt_None)
  then obtain k where k: "find (\<lambda>i. vlan_bridge (vlans priv i) = None)
      [max_ports (hw_info priv)..<64] = Some k"
    by blast
  then have ff: "first_free priv k" by (simp add: find_first_free)
  from k have least: "\<forall>j. max_ports (hw_info priv) \<le> j \<and> j < k \<longrightarrow>
      vlan_bridge (vlans priv j) \<noteq> None"
    by (simp add: find_upt_Some)
  have "\<not> idx < k"
  proof
    assume "idx < k"
    with least assms show False by blast
  qed
  with ff show ?thesis by auto
qed

text \<open>
  C4. A VLAN delete that finds its slot \<open>idx\<close> (the hardware answering every poll, the
  row read back having its five value words) returns 0 and clears the bit of the leaving
  port in both bitmaps of the VLAN-mapping row, the port map \<open>val[1]\<close> and the tagged
  map \<open>val[2]\<close>, leaving every other bit. If the port map then has no bit but that of
  the CPU port, the slot is released: its binding is cleared and its Active-VLAN row is
  written invalid; an allocation that follows returns an index that is at most \<open>idx\<close>,
  and exactly \<open>idx\<close> when every usable slot below it is bound. Otherwise the slot array
  and the Active-VLAN bank stay as they are.
\<close>

theorem vlan_delete_releases_slot:
  "polls (hw priv) = [] \<and> first_leave_slot priv bridge vid vlan_aware idx \<and>
   length (row_val (pce_tbl (hw priv) GSWIP_TABLE_VLAN_MAPPING idx)) = 5 \<longrightarrow>
   (let R = gswip_vlan_remove priv bridge port vid pvid vlan_aware;
        old = row_val (pce_tbl (hw priv) GSWIP_TABLE_VLAN_MAPPING idx);
        new = row_val (pce_tbl (hw (snd R)) GSWIP_TABLE_VLAN_MAPPING idx)
    in fst R = None \<and>
       (\<forall>q. bit (new ! 1) q \<longleftrightarrow> bit (old ! 1) q \<and> q \<noteq> port) \<and>
       (\<forall>q. bit (new ! 2) q \<longleftrightarrow> bit (old ! 2) q \<and> q \<noteq> port) \<and>
       (if \<forall>q. bit (new ! 1) q \<longrightarrow> q = cpu_port (hw_info priv)
        then vlan_bridge (vlans (snd R) idx) = None \<and>
             \<not> row_valid (pce_tbl (hw (snd R)) GSWIP_TABLE_ACTIVE_VLAN idx) \<and>
             (\<exists>k. fst (gswip_vlan_active_create (snd R) bridge' fid' vid') = Inr k \<and> k \<le> idx \<and>
                  ((\<forall>j. max_ports (hw_info priv) \<le> j \<and> j < idx \<longrightarrow>
                        vlan_bridge (vlans priv j) \<noteq> None) \<longrightarrow> k = idx))
        else vlans (snd R) = vlans priv \<and>
             pce_tbl (hw (snd R)) GSWIP_TABLE_ACTIVE_VLAN =
               pce_tbl (hw priv) GSWIP_TABLE_ACTIVE_VLAN))"
proof (intro impI, elim conjE)
  assume p: "polls (hw priv) = []"
    and s: "first_leave_slot priv bridge vid vlan_aware idx"
    and len: "length (row_val (pce_tbl (hw priv) GSWIP_TABLE_VLAN_MAPPING idx)) = 5"
  let ?R = "gswip_vlan_remove priv bridge port vid pvid vlan_aware"
  let ?old = "row_val (pce_tbl (hw priv) GSWIP_TABLE_VLAN_MAPPING idx)"
  let ?new = "row_val (pce_tbl (hw (snd ?R)) GSWIP_TABLE_VLAN_MAPPING idx)"
  note ok = vlan_remove_ok [OF p s len, of port pvid]
  from s have rng: "max_ports (hw_info priv) \<le> idx" "idx < 64"
    by (auto simp: first_leave_slot_def first_vlan_slot_def vlan_slot_def first_slot_def
        slot_bound_def split: if_splits)
  have new1: "?new ! 1 = ?old ! 1 AND NOT (BIT port)"
    and new2: "?new ! 2 = ?old ! 2 AND NOT (BIT port)"
    using ok by simp_all
  have b1: "bit (?new ! 1) q \<longleftrightarrow> bit (?old ! 1) q \<and> q \<noteq> port" for q
    unfolding new1 by (auto simp: bit_and_iff bit_not_iff bit_BIT_iff dest: bit_u16_lt)
  have b2: "bit (?new ! 2) q \<longleftrightarrow> bit (?old ! 2) q \<and> q \<noteq> port" for q
    unfolding new2 by (auto simp: bit_and_iff bit_not_iff bit_BIT_iff dest: bit_u16_lt)
  have emp: "(\<forall>q. bit (?new ! 1) q \<longrightarrow> q = cpu_port (hw_info priv)) \<longleftrightarrow>
      (?old ! 1 AND NOT (BIT port)) AND NOT (BIT (cpu_port (hw_info priv))) = 0"
    unfolding new1 by (simp add: and_not_BIT_eq_0)
  have rel: "\<exists>k. fst (gswip_vlan_active_create (snd ?R) bridge' fid' vid') = Inr k \<and> k \<le> idx \<and>
                  ((\<forall>j. max_ports (hw_info priv) \<le> j \<and> j < idx \<longrightarrow>
                        vlan_bridge (vlans priv j) \<noteq> None) \<longrightarrow> k = idx)"
    if e: "(?old ! 1 AND NOT (BIT port)) AND NOT (BIT (cpu_port (hw_info priv))) = 0"
  proof -
    from ok e have v: "vlans (snd ?R) = (vlans priv)(idx := (vlans priv idx)\<lparr>vlan_bridge := None\<rparr>)"
      and p': "polls (hw (snd ?R)) = []"
      by simp_all
    have hi: "hw_info (snd ?R) = hw_info priv"
      by (simp add: vlan_remove_frame)
    from v rng hi first_free_exists [of "snd ?R" idx]
    obtain k where k: "first_free (snd ?R) k" "k \<le> idx"
      by auto
    from active_create_ok [OF p' k(1), of bridge' fid' vid']
    have c: "fst (gswip_vlan_active_create (snd ?R) bridge' fid' vid') = Inr k"
      by simp
    have "k = idx" if "\<forall>j. max_ports (hw_info priv) \<le> j \<and> j < idx \<longrightarrow>
                        vlan_bridge (vlans priv j) \<noteq> None"
    proof (rule ccontr)
      assume "k \<noteq> idx"
      with k have lt: "k < idx" by simp
      from k(1) have "max_ports (hw_info priv) \<le> k" "vlan_bridge (vlans (snd ?R) k) = None"
        by (simp_all add: first_free_def first_slot_def slot_bound_def hi)
      with lt v that show False by force
    qed
    with c k show ?thesis by blast
  qed
  show "let R = gswip_vlan_remove priv bridge port vid pvid vlan_aware;
        old = row_val (pce_tbl (hw priv) GSWIP_TABLE_VLAN_MAPPING idx);
        new = row_val (pce_tbl (hw (snd R)) GSWIP_TABLE_VLAN_MAPPING idx)
    in fst R = None \<and>
       (\<forall>q. bit (new ! 1) q \<longleftrightarrow> bit (old ! 1) q \<and> q \<noteq> port) \<and>
       (\<forall>q. bit (new ! 2) q \<longleftrightarrow> bit (old ! 2) q \<and> q \<noteq> port) \<and>
       (if \<forall>q. bit (new ! 1) q \<longrightarrow> q = cpu_port (hw_info priv)
        then vlan_bridge (vlans (snd R) idx) = None \<and>
             \<not> row_valid (pce_tbl (hw (snd R)) GSWIP_TABLE_ACTIVE_VLAN idx) \<and>
             (\<exists>k. fst (gswip_vlan_active_create (snd R) bridge' fid' vid') = Inr k \<and> k \<le> idx \<and>
                  ((\<forall>j. max_ports (hw_info priv) \<le> j \<and> j < idx \<longrightarrow>
                        vlan_bridge (vlans priv j) \<noteq> None) \<longrightarrow> k = idx))
        else vlans (snd R) = vlans priv \<and>
             pce_tbl (hw (snd R)) GSWIP_TABLE_ACTIVE_VLAN =
               pce_tbl (hw priv) GSWIP_TABLE_ACTIVE_VLAN)"
    unfolding Let_def
  proof (intro conjI)
    show "fst ?R = None" using ok by simp
    show "\<forall>q. bit (?new ! 1) q \<longleftrightarrow> bit (?old ! 1) q \<and> q \<noteq> port" using b1 by simp
    show "\<forall>q. bit (?new ! 2) q \<longleftrightarrow> bit (?old ! 2) q \<and> q \<noteq> port" using b2 by simp
    show "if \<forall>q. bit (?new ! 1) q \<longrightarrow> q = cpu_port (hw_info priv)
        then vlan_bridge (vlans (snd ?R) idx) = None \<and>
             \<not> row_valid (pce_tbl (hw (snd ?R)) GSWIP_TABLE_ACTIVE_VLAN idx) \<and>
             (\<exists>k. fst (gswip_vlan_active_create (snd ?R) bridge' fid' vid') = Inr k \<and> k \<le> idx \<and>
                  ((\<forall>j. max_ports (hw_info priv) \<le> j \<and> j < idx \<longrightarrow>
                        vlan_bridge (vlans priv j) \<noteq> None) \<longrightarrow> k = idx))
        else vlans (snd ?R) = vlans priv \<and>
             pce_tbl (hw (snd ?R)) GSWIP_TABLE_ACTIVE_VLAN =
               pce_tbl (hw priv) GSWIP_TABLE_ACTIVE_VLAN"
    proof (cases "(?old ! 1 AND NOT (BIT port)) AND NOT (BIT (cpu_port (hw_info priv))) = 0")
      case True
      with emp have c: "\<forall>q. bit (?new ! 1) q \<longrightarrow> q = cpu_port (hw_info priv)"
        by blast
      from ok True have "vlan_bridge (vlans (snd ?R) idx) = None"
        "\<not> row_valid (pce_tbl (hw (snd ?R)) GSWIP_TABLE_ACTIVE_VLAN idx)"
        by simp_all
      with rel [OF True] show ?thesis
        unfolding if_P [OF c] by blast
    next
      case False
      with emp have c: "\<not> (\<forall>q. bit (?new ! 1) q \<longrightarrow> q = cpu_port (hw_info priv))"
        by blast
      from ok False have "vlans (snd ?R) = vlans priv"
        "pce_tbl (hw (snd ?R)) GSWIP_TABLE_ACTIVE_VLAN = pce_tbl (hw priv) GSWIP_TABLE_ACTIVE_VLAN"
        by simp_all
      then show ?thesis
        unfolding if_not_P [OF c] by blast
    qed
  qed
qed


lemma priv_port2_vlan10_facts:
  "polls (hw priv_port2_vlan10) = []"
  "hw_info priv_port2_vlan10 = gswip_xrx200"
  "vlans priv_port2_vlan10 = (vlans priv_example)
     (7 := \<lparr>vlan_bridge = Some 1, vlan_vid = 10, vlan_fid = 7\<rparr>)"
  "row_val (pce_tbl (hw priv_port2_vlan10) GSWIP_TABLE_VLAN_MAPPING 7) =
     [10, BIT 6 OR BIT 2, BIT 6 OR BIT 2, 0, 0]"
  by (simp_all add: priv_port2_vlan10_def example_simps eval_defs)

text \<open>
  Port 2, the only member of VLAN 10 of bridge 1 in slot 7, leaves: the slot is released
  and the next allocation gets index 7 again.
\<close>

theorem vlan_delete_releases_slot_witness:
  "fst (gswip_vlan_remove priv_port2_vlan10 (Some 1) 2 10 False True) = None \<and>
   \<not> bit (row_val (pce_tbl (hw (snd (gswip_vlan_remove priv_port2_vlan10 (Some 1) 2 10
            False True))) GSWIP_TABLE_VLAN_MAPPING 7) ! 1) 2 \<and>
   vlan_bridge (vlans (snd (gswip_vlan_remove priv_port2_vlan10 (Some 1) 2 10 False True)) 7)
     = None \<and>
   \<not> row_valid (pce_tbl (hw (snd (gswip_vlan_remove priv_port2_vlan10 (Some 1) 2 10
            False True))) GSWIP_TABLE_ACTIVE_VLAN 7) \<and>
   fst (gswip_vlan_active_create
          (snd (gswip_vlan_remove priv_port2_vlan10 (Some 1) 2 10 False True))
          (Some 2) (- 1) 0) = Inr 7"
proof -
  note f = priv_port2_vlan10_facts
  have h: "polls (hw priv_port2_vlan10) = [] \<and>
      first_leave_slot priv_port2_vlan10 (Some 1) 10 True 7 \<and>
      length (row_val (pce_tbl (hw priv_port2_vlan10) GSWIP_TABLE_VLAN_MAPPING 7)) = 5"
    by (auto simp: f first_leave_slot_def first_vlan_slot_def vlan_slot_def slot_bound_def
        gswip_xrx200_def)
  have c: "cpu_port (hw_info priv_port2_vlan10) = 6" "max_ports (hw_info priv_port2_vlan10) = 7"
    by (simp_all add: f gswip_xrx200_def)
  have e: "(\<forall>q. bit (row_val (pce_tbl (hw priv_port2_vlan10) GSWIP_TABLE_VLAN_MAPPING 7) ! 1) q
              \<and> q \<noteq> 2 \<longrightarrow> q = 6)"
    by (auto simp: f bit_or_iff bit_BIT_iff)
  let ?R = "gswip_vlan_remove priv_port2_vlan10 (Some 1) 2 10 False True"
  from vlan_delete_releases_slot [of priv_port2_vlan10 "Some 1" 10 True 7 2 False "Some 2" "- 1" 0]
    h
  have T: "fst ?R = None \<and>
       (\<forall>q. bit (row_val (pce_tbl (hw (snd ?R)) GSWIP_TABLE_VLAN_MAPPING 7) ! 1) q \<longleftrightarrow>
            bit (row_val (pce_tbl (hw priv_port2_vlan10) GSWIP_TABLE_VLAN_MAPPING 7) ! 1) q \<and>
            q \<noteq> 2) \<and>
       (if \<forall>q. bit (row_val (pce_tbl (hw (snd ?R)) GSWIP_TABLE_VLAN_MAPPING 7) ! 1) q \<longrightarrow> q = 6
        then vlan_bridge (vlans (snd ?R) 7) = None \<and>
             \<not> row_valid (pce_tbl (hw (snd ?R)) GSWIP_TABLE_ACTIVE_VLAN 7) \<and>
             (\<exists>k. fst (gswip_vlan_active_create (snd ?R) (Some 2) (- 1) 0) = Inr k \<and> k \<le> 7 \<and>
                  ((\<forall>j. 7 \<le> j \<and> j < 7 \<longrightarrow>
                        vlan_bridge (vlans priv_port2_vlan10 j) \<noteq> None) \<longrightarrow> k = 7))
        else vlans (snd ?R) = vlans priv_port2_vlan10 \<and>
             pce_tbl (hw (snd ?R)) GSWIP_TABLE_ACTIVE_VLAN =
               pce_tbl (hw priv_port2_vlan10) GSWIP_TABLE_ACTIVE_VLAN)"
    unfolding Let_def c by blast
  from T e have cnd:
    "\<forall>q. bit (row_val (pce_tbl (hw (snd ?R)) GSWIP_TABLE_VLAN_MAPPING 7) ! 1) q \<longrightarrow> q = 6"
    by blast
  from T have "vlan_bridge (vlans (snd ?R) 7) = None \<and>
             \<not> row_valid (pce_tbl (hw (snd ?R)) GSWIP_TABLE_ACTIVE_VLAN 7) \<and>
             (\<exists>k. fst (gswip_vlan_active_create (snd ?R) (Some 2) (- 1) 0) = Inr k \<and> k \<le> 7 \<and>
                  ((\<forall>j. 7 \<le> j \<and> j < 7 \<longrightarrow>
                        vlan_bridge (vlans priv_port2_vlan10 j) \<noteq> None) \<longrightarrow> k = 7))"
    unfolding if_P [OF cnd] by blast
  then have "vlan_bridge (vlans (snd ?R) 7) = None"
    "\<not> row_valid (pce_tbl (hw (snd ?R)) GSWIP_TABLE_ACTIVE_VLAN 7)"
    "fst (gswip_vlan_active_create (snd ?R) (Some 2) (- 1) 0) = Inr 7"
    by auto
  moreover from T have "fst ?R = None"
    "\<not> bit (row_val (pce_tbl (hw (snd ?R)) GSWIP_TABLE_VLAN_MAPPING 7) ! 1) 2"
    by simp_all
  ultimately show ?thesis by simp
qed

section \<open>First-fit allocation\<close>

lemma add_unaware_ok_existing:
  assumes p: "polls (hw priv) = []" and s: "first_slot priv bridge idx"
  shows "fst (gswip_vlan_add_unaware priv bridge port) = None \<and>
    vlans (snd (gswip_vlan_add_unaware priv bridge port)) = vlans priv \<and>
    pce_tbl (hw (snd (gswip_vlan_add_unaware priv bridge port))) GSWIP_TABLE_ACTIVE_VLAN =
      pce_tbl (hw priv) GSWIP_TABLE_ACTIVE_VLAN \<and>
    (\<forall>j. j \<noteq> idx \<longrightarrow>
       pce_tbl (hw (snd (gswip_vlan_add_unaware priv bridge port))) GSWIP_TABLE_VLAN_MAPPING j =
       pce_tbl (hw priv) GSWIP_TABLE_VLAN_MAPPING j)"
proof -
  from s have f: "find (\<lambda>i. vlan_bridge (vlans priv i) = bridge)
      [max_ports (hw_info priv)..<64] = Some idx"
    by (simp add: find_first_slot)
  from s have lt: "idx < 64"
    by (simp add: first_slot_def slot_bound_def)
  show ?thesis
    using p lt
    by (simp add: gswip_vlan_add_unaware_def f read_ok write_ok Let_def hw_table_store_def
        hw_row_index_def unat_of_nat_slot gswip_switch_w_def val_or_def pce_entry0_def)
qed

lemma add_unaware_ok_new:
  assumes p: "polls (hw priv) = []" and n: "\<forall>i. \<not> slot_bound priv bridge i"
    and f: "first_free priv idx"
  shows "fst (gswip_vlan_add_unaware priv bridge port) = None \<and>
    polls (hw (snd (gswip_vlan_add_unaware priv bridge port))) = [] \<and>
    hw_info (snd (gswip_vlan_add_unaware priv bridge port)) = hw_info priv \<and>
    vlans (snd (gswip_vlan_add_unaware priv bridge port)) =
      (vlans priv)(idx := \<lparr>vlan_bridge = bridge, vlan_vid = 0, vlan_fid = of_nat idx\<rparr>) \<and>
    pce_tbl (hw (snd (gswip_vlan_add_unaware priv bridge port))) GSWIP_TABLE_VLAN_MAPPING =
      (pce_tbl (hw priv) GSWIP_TABLE_VLAN_MAPPING)(idx :=
         \<lparr>row_key = [0, 0, 0, 0, 0, 0, 0, 0],
          row_val = [0, BIT (cpu_port (hw_info priv)) OR BIT port, 0, 0, 0],
          row_mask = 0, row_gmap = 0, row_type = False, row_valid = False\<rparr>)"
proof -
  from n have fn: "find (\<lambda>i. vlan_bridge (vlans priv i) = bridge)
      [max_ports (hw_info priv)..<64] = None"
    by (simp add: find_no_slot)
  from f have lt: "idx < 64" by (rule first_free_lt)
  show ?thesis
    using p lt
    by (simp add: gswip_vlan_add_unaware_def fn active_create_ok [OF p f] write_ok Let_def
        hw_table_store_def hw_row_index_def entry_simps unat_of_nat_slot gswip_switch_w_def)
qed

lemma join_all_fill:
  "polls (hw priv) = [] \<Longrightarrow> distinct (map fst reqs) \<Longrightarrow> m + length reqs \<le> 64 \<Longrightarrow>
   max_ports (hw_info priv) \<le> m \<Longrightarrow>
   (\<forall>j. max_ports (hw_info priv) \<le> j \<and> j < m \<longrightarrow>
      (\<exists>b. vlan_bridge (vlans priv j) = Some b \<and> b \<notin> set (map fst reqs))) \<Longrightarrow>
   (\<forall>j. m \<le> j \<and> j < 64 \<longrightarrow> vlan_bridge (vlans priv j) = None) \<Longrightarrow>
   (\<forall>k<length reqs. vlans (join_all priv reqs) (m + k) =
      \<lparr>vlan_bridge = Some (fst (reqs ! k)), vlan_vid = 0, vlan_fid = of_nat (m + k)\<rparr>) \<and>
   (\<forall>j. j < m \<or> m + length reqs \<le> j \<longrightarrow> vlans (join_all priv reqs) j = vlans priv j)"
proof (induction reqs arbitrary: priv m)
  case Nil
  then show ?case by simp
next
  case (Cons r rest)
  obtain b port where r: "r = (b, port)" by (cases r)
  let ?p1 = "snd (gswip_vlan_add_unaware priv (Some b) port)"
  from Cons.prems r have m64: "m < 64" by simp
  have nb: "\<forall>i. \<not> slot_bound priv (Some b) i"
  proof (intro allI notI)
    fix i assume sb: "slot_bound priv (Some b) i"
    show False
    proof (cases "i < m")
      case True
      with sb Cons.prems(5) r show False
        by (auto simp: slot_bound_def)
    next
      case False
      with sb Cons.prems(6) show False
        by (auto simp: slot_bound_def)
    qed
  qed
  have ff: "first_free priv m"
    using Cons.prems(4,5,6) m64
    by (auto simp: first_free_def first_slot_def slot_bound_def)
  note ok = add_unaware_ok_new [OF Cons.prems(1) nb ff, of port]
  from ok have v1: "vlans ?p1 = (vlans priv)(m :=
      \<lparr>vlan_bridge = Some b, vlan_vid = 0, vlan_fid = of_nat m\<rparr>)"
    and p1: "polls (hw ?p1) = []" and h1: "hw_info ?p1 = hw_info priv"
    by simp_all
  have IH: "(\<forall>k<length rest. vlans (join_all ?p1 rest) (Suc m + k) =
      \<lparr>vlan_bridge = Some (fst (rest ! k)), vlan_vid = 0, vlan_fid = of_nat (Suc m + k)\<rparr>) \<and>
   (\<forall>j. j < Suc m \<or> Suc m + length rest \<le> j \<longrightarrow> vlans (join_all ?p1 rest) j = vlans ?p1 j)"
  proof (rule Cons.IH [OF p1])
    show "distinct (map fst rest)" using Cons.prems(2) by simp
    show "Suc m + length rest \<le> 64" using Cons.prems(3) by simp
    show "max_ports (hw_info ?p1) \<le> Suc m" using Cons.prems(4) h1 by simp
    show "\<forall>j. max_ports (hw_info ?p1) \<le> j \<and> j < Suc m \<longrightarrow>
      (\<exists>b. vlan_bridge (vlans ?p1 j) = Some b \<and> b \<notin> set (map fst rest))"
      using Cons.prems(2,5) r h1 v1 by (auto simp: less_Suc_eq)
    show "\<forall>j. Suc m \<le> j \<and> j < 64 \<longrightarrow> vlan_bridge (vlans ?p1 j) = None"
      using Cons.prems(6) v1 by simp
  qed
  have j: "join_all priv (r # rest) = join_all ?p1 rest"
    by (simp add: r)
  show ?case
  proof (intro conjI allI impI)
    fix k assume k: "k < length (r # rest)"
    show "vlans (join_all priv (r # rest)) (m + k) =
      \<lparr>vlan_bridge = Some (fst ((r # rest) ! k)), vlan_vid = 0, vlan_fid = of_nat (m + k)\<rparr>"
    proof (cases k)
      case 0
      with IH v1 r j show ?thesis by simp
    next
      case (Suc k')
      with k IH j show ?thesis by simp
    qed
  next
    fix j' assume "j' < m \<or> m + length (r # rest) \<le> j'"
    with IH v1 j show "vlans (join_all priv (r # rest)) j' = vlans priv j'"
      by auto
  qed
qed


lemma first_free_iff:
  "first_free priv idx \<longleftrightarrow>
     max_ports (hw_info priv) \<le> idx \<and> idx < 64 \<and> vlan_bridge (vlans priv idx) = None \<and>
     (\<forall>j. max_ports (hw_info priv) \<le> j \<and> j < idx \<longrightarrow> vlan_bridge (vlans priv j) \<noteq> None)"
  by (auto simp: first_free_def first_slot_def slot_bound_def)

lemma active_create_nospace:
  "\<forall>i. \<not> slot_bound priv None i \<Longrightarrow>
   gswip_vlan_active_create priv bridge fid vid = (Inl ENOSPC, priv)"
  using find_no_slot [of priv None] by (simp add: gswip_vlan_active_create_def)

lemma add_unaware_nospace:
  "\<forall>i. \<not> slot_bound priv bridge i \<Longrightarrow> \<forall>i. \<not> slot_bound priv None i \<Longrightarrow>
   gswip_vlan_add_unaware priv bridge port = (Some ENOSPC, priv)"
  using find_no_slot [of priv bridge]
  by (simp add: gswip_vlan_add_unaware_def active_create_nospace)

lemma join_all_empty_pool:
  assumes "polls (hw priv) = []" "\<forall>i. vlan_bridge (vlans priv i) = None"
    "distinct (map fst reqs)" "max_ports (hw_info priv) + length reqs \<le> 64"
  shows "\<forall>k<length reqs. vlans (join_all priv reqs) (max_ports (hw_info priv) + k) =
      \<lparr>vlan_bridge = Some (fst (reqs ! k)), vlan_vid = 0,
       vlan_fid = of_nat (max_ports (hw_info priv) + k)\<rparr>"
  using join_all_fill [of priv reqs "max_ports (hw_info priv)"] assms by simp

text \<open>
  C5. The slot pool is first-fit over the usable range, from \<open>max_ports\<close> up to 63:
  \<^item> an allocation that returns an index returns the first free slot of that range and
    binds it;
  \<^item> when the range has no free slot the allocation returns \<open>-ENOSPC\<close> and changes
    nothing, and so does the join of a bridge that has no slot yet;
  \<^item> when the hardware answers every poll: the allocation returns the first free slot;
    the join of a bridge uses the first slot already bound to the bridge (no binding is
    made, and no other row of the VLAN-mapping bank is written), or without such a slot
    binds the first free one, with the slot's index as flow id;
  \<^item> joining \<open>N\<close> different bridges to an empty pool that has room for them binds the
    \<open>k\<close>-th bridge to slot \<open>max_ports + k\<close>: \<open>N\<close> different, ascending indices beyond
    the reserved range.
\<close>

theorem slot_pool_first_fit:
  "(\<forall>idx. fst (gswip_vlan_active_create priv bridge fid vid) = Inr idx \<longrightarrow>
      first_free priv idx \<and>
      vlans (snd (gswip_vlan_active_create priv bridge fid vid)) =
        (vlans priv)(idx := \<lparr>vlan_bridge = bridge, vlan_vid = vid,
           vlan_fid = word_of_int (if fid = - 1 then int idx else fid)\<rparr>)) \<and>
   ((\<forall>i. \<not> slot_bound priv None i) \<longrightarrow>
      gswip_vlan_active_create priv bridge fid vid = (Inl ENOSPC, priv) \<and>
      ((\<forall>i. \<not> slot_bound priv bridge i) \<longrightarrow>
         gswip_vlan_add_unaware priv bridge port = (Some ENOSPC, priv))) \<and>
   (polls (hw priv) = [] \<longrightarrow>
      (\<forall>idx. first_free priv idx \<longrightarrow>
         fst (gswip_vlan_active_create priv bridge fid vid) = Inr idx) \<and>
      (\<forall>idx. first_slot priv bridge idx \<longrightarrow>
         fst (gswip_vlan_add_unaware priv bridge port) = None \<and>
         vlans (snd (gswip_vlan_add_unaware priv bridge port)) = vlans priv \<and>
         pce_tbl (hw (snd (gswip_vlan_add_unaware priv bridge port))) GSWIP_TABLE_ACTIVE_VLAN =
           pce_tbl (hw priv) GSWIP_TABLE_ACTIVE_VLAN \<and>
         (\<forall>j. j \<noteq> idx \<longrightarrow>
            pce_tbl (hw (snd (gswip_vlan_add_unaware priv bridge port)))
              GSWIP_TABLE_VLAN_MAPPING j =
            pce_tbl (hw priv) GSWIP_TABLE_VLAN_MAPPING j)) \<and>
      (\<forall>idx. (\<forall>i. \<not> slot_bound priv bridge i) \<and> first_free priv idx \<longrightarrow>
         fst (gswip_vlan_add_unaware priv bridge port) = None \<and>
         vlans (snd (gswip_vlan_add_unaware priv bridge port)) =
           (vlans priv)(idx := \<lparr>vlan_bridge = bridge, vlan_vid = 0,
              vlan_fid = of_nat idx\<rparr>)) \<and>
      ((\<forall>i. vlan_bridge (vlans priv i) = None) \<and> distinct (map fst reqs) \<and>
       max_ports (hw_info priv) + length reqs \<le> 64 \<longrightarrow>
         (\<forall>k<length reqs. vlans (join_all priv reqs) (max_ports (hw_info priv) + k) =
            \<lparr>vlan_bridge = Some (fst (reqs ! k)), vlan_vid = 0,
             vlan_fid = of_nat (max_ports (hw_info priv) + k)\<rparr>)))"
proof (intro conjI allI impI)
  fix idx assume a: "fst (gswip_vlan_active_create priv bridge fid vid) = Inr idx"
  from active_create_vlans [OF a] show "first_free priv idx"
    by (simp add: first_free_iff)
  from active_create_vlans [OF a]
  show "vlans (snd (gswip_vlan_active_create priv bridge fid vid)) =
        (vlans priv)(idx := \<lparr>vlan_bridge = bridge, vlan_vid = vid,
           vlan_fid = word_of_int (if fid = - 1 then int idx else fid)\<rparr>)"
    by simp
next
  assume "\<forall>i. \<not> slot_bound priv None i"
  then show "gswip_vlan_active_create priv bridge fid vid = (Inl ENOSPC, priv)"
    by (rule active_create_nospace)
next
  assume "\<forall>i. \<not> slot_bound priv None i" "\<forall>i. \<not> slot_bound priv bridge i"
  then show "gswip_vlan_add_unaware priv bridge port = (Some ENOSPC, priv)"
    by (simp add: add_unaware_nospace)
next
  fix idx assume "polls (hw priv) = []" "first_free priv idx"
  then show "fst (gswip_vlan_active_create priv bridge fid vid) = Inr idx"
    by (simp add: active_create_ok)
next
  fix idx assume p: "polls (hw priv) = []" and s: "first_slot priv bridge idx"
  note ok = add_unaware_ok_existing [OF p s, of port]
  from ok show "fst (gswip_vlan_add_unaware priv bridge port) = None" by simp
  from ok show "vlans (snd (gswip_vlan_add_unaware priv bridge port)) = vlans priv" by simp
  from ok show "pce_tbl (hw (snd (gswip_vlan_add_unaware priv bridge port)))
      GSWIP_TABLE_ACTIVE_VLAN = pce_tbl (hw priv) GSWIP_TABLE_ACTIVE_VLAN" by simp
  fix j assume "j \<noteq> idx"
  with ok show "pce_tbl (hw (snd (gswip_vlan_add_unaware priv bridge port)))
              GSWIP_TABLE_VLAN_MAPPING j =
            pce_tbl (hw priv) GSWIP_TABLE_VLAN_MAPPING j" by simp
next
  fix idx assume p: "polls (hw priv) = []"
    and h: "(\<forall>i. \<not> slot_bound priv bridge i) \<and> first_free priv idx"
  from h add_unaware_ok_new [OF p, of bridge idx port]
  show "fst (gswip_vlan_add_unaware priv bridge port) = None"
    "vlans (snd (gswip_vlan_add_unaware priv bridge port)) =
           (vlans priv)(idx := \<lparr>vlan_bridge = bridge, vlan_vid = 0,
              vlan_fid = of_nat idx\<rparr>)"
    by simp_all
next
  fix k assume p: "polls (hw priv) = []"
    and h: "(\<forall>i. vlan_bridge (vlans priv i) = None) \<and> distinct (map fst reqs) \<and>
       max_ports (hw_info priv) + length reqs \<le> 64"
    and k: "k < length reqs"
  from join_all_empty_pool [OF p, of reqs] h k
  show "vlans (join_all priv reqs) (max_ports (hw_info priv) + k) =
            \<lparr>vlan_bridge = Some (fst (reqs ! k)), vlan_vid = 0,
             vlan_fid = of_nat (max_ports (hw_info priv) + k)\<rparr>"
    by simp
qed

text \<open>
  A full pool gives \<open>-ENOSPC\<close>; with slot 7 bound the next allocation returns 8; three
  bridges joined to the empty pool of the example get the slots 7, 8 and 9.
\<close>

theorem slot_pool_first_fit_witness:
  "gswip_vlan_active_create priv_full (Some 1) (- 1) 0 = (Inl ENOSPC, priv_full) \<and>
   fst (gswip_vlan_active_create priv_one_slot (Some 2) (- 1) 0) = Inr 8 \<and>
   map (\<lambda>i. vlan_bridge (vlans (join_all priv_example [(1, 1), (2, 2), (3, 3)]) i)) [7, 8, 9]
     = [Some 1, Some 2, Some 3]"
proof -
  have a: "\<forall>i. \<not> slot_bound priv_full None i"
    by (simp add: slot_bound_def priv_full_def)
  have b: "polls (hw priv_one_slot) = []" "first_free priv_one_slot 8"
    by (auto simp: first_free_iff priv_one_slot_def example_simps)
  have c: "polls (hw priv_example) = []" "\<forall>i. vlan_bridge (vlans priv_example i) = None"
    "distinct (map fst [(1 :: nat, 1 :: nat), (2, 2), (3, 3)])"
    "max_ports (hw_info priv_example) + length [(1 :: nat, 1 :: nat), (2, 2), (3, 3)] \<le> 64"
    "max_ports (hw_info priv_example) = 7"
    by (simp_all add: example_simps)
  note T = slot_pool_first_fit
  from T [of priv_full "Some 1" "- 1" 0 1 "[]"] a
  have 1: "gswip_vlan_active_create priv_full (Some 1) (- 1) 0 = (Inl ENOSPC, priv_full)"
    by blast
  from T [of priv_one_slot "Some 2" "- 1" 0 1 "[]"] b
  have 2: "fst (gswip_vlan_active_create priv_one_slot (Some 2) (- 1) 0) = Inr 8"
    by blast
  from T [of priv_example None 0 0 0 "[(1, 1), (2, 2), (3, 3)]"] c
  have 3: "\<forall>k<3. vlans (join_all priv_example [(1, 1), (2, 2), (3, 3)]) (7 + k) =
            \<lparr>vlan_bridge = Some (fst ([(1 :: nat, 1 :: nat), (2, 2), (3, 3)] ! k)), vlan_vid = 0,
             vlan_fid = of_nat (7 + k)\<rparr>"
    by simp
  from 3 [rule_format, of 0] 3 [rule_format, of 1] 3 [rule_format, of 2]
  have "map (\<lambda>i. vlan_bridge (vlans (join_all priv_example [(1, 1), (2, 2), (3, 3)]) i)) [7, 8, 9]
     = [Some 1, Some 2, Some 3]"
    by simp
  with 1 2 show ?thesis by blast
qed

section \<open>Aging the forwarding table\<close>

lemma mac_bridge_static_iff: "mac_bridge_static v = bit (v ! 1) 0"
  by (simp add: mac_bridge_static_def GSWIP_TABLE_MAC_BRIDGE_STATIC_def and_one_eq bit_0
      even_iff_mod_2_eq_zero)

lemma mac_bridge_port_eq: "mac_bridge_port v = (unat (v ! 0) div 16) mod 16"
proof -
  have m: "(15 :: u16) = mask 4"
    by (simp add: mask_eq_exp_minus_1)
  have "drop_bit 4 (v ! 0 AND 0xF0) = drop_bit 4 (v ! 0) AND 15"
    by simp
  also have "\<dots> = take_bit 4 (drop_bit 4 (v ! 0))"
    unfolding m by (simp add: take_bit_eq_mask)
  finally show ?thesis
    by (simp add: mac_bridge_port_def unsigned_take_bit_eq unat_drop_bit_eq take_bit_eq_mod
        drop_bit_eq_div unat_div_distrib unat_mod_distrib)
qed


lemma unat_of_nat_fdb: "i < 2048 \<Longrightarrow> unat (of_nat i :: u16) = i"
  by (simp add: unat_of_nat_u16)

lemma fdb_aged_entry:
  "fdb_aged port r \<longleftrightarrow>
     row_valid r \<and> \<not> mac_bridge_static (row_val r) \<and> mac_bridge_port (row_val r) = port"
  by (simp add: fdb_aged_def is_static_def learned_on_def mac_bridge_static_iff
      mac_bridge_port_eq)

lemma fast_age_loop_ok:
  "polls (hw priv) = [] \<Longrightarrow> \<not> tbl_key_mode mb \<Longrightarrow> i \<le> 2048 \<Longrightarrow>
   pce_tbl (hw (gswip_port_fast_age_loop priv port mb i)) =
     (pce_tbl (hw priv))(GSWIP_TABLE_MAC_BRIDGE :=
        (\<lambda>j. if i \<le> j \<and> j < 2048 \<and> fdb_aged port (pce_tbl (hw priv) GSWIP_TABLE_MAC_BRIDGE j)
             then (pce_tbl (hw priv) GSWIP_TABLE_MAC_BRIDGE j)\<lparr>row_valid := False\<rparr>
             else pce_tbl (hw priv) GSWIP_TABLE_MAC_BRIDGE j)) \<and>
   vlans (gswip_port_fast_age_loop priv port mb i) = vlans priv \<and>
   klog (gswip_port_fast_age_loop priv port mb i) = klog priv"
proof (induction "2048 - i" arbitrary: i priv mb)
  case 0
  then have n: "\<not> i < 2048" by simp
  then have L: "gswip_port_fast_age_loop priv port mb i = priv"
    by (simp add: gswip_port_fast_age_loop.simps [of priv port mb i])
  from n show ?case
    unfolding L by (auto simp: fun_eq_iff)
next
  case (Suc n)
  then have lt: "i < 2048" by simp
  let ?T = "pce_tbl (hw priv) GSWIP_TABLE_MAC_BRIDGE"
  let ?mb1 = "mb\<lparr>tbl_table := GSWIP_TABLE_MAC_BRIDGE, tbl_index := of_nat i,
      tbl_key := row_key (?T i), tbl_val := row_val (?T i), tbl_mask := row_mask (?T i),
      tbl_type := row_type (?T i), tbl_valid := row_valid (?T i),
      tbl_gmap := ucast (row_gmap (?T i))\<rparr>"
  have rd: "gswip_pce_table_entry_read priv
      (mb\<lparr>tbl_table := GSWIP_TABLE_MAC_BRIDGE, tbl_index := of_nat i\<rparr>) = (None, priv, ?mb1)"
    using Suc.prems lt
    by (simp add: read_ok hw_row_index_def unat_of_nat_fdb Let_def)
  show ?case
  proof (cases "fdb_aged port (?T i)")
    case False
    then have step: "gswip_port_fast_age_loop priv port mb i =
        gswip_port_fast_age_loop priv port ?mb1 (i + 1)"
      using lt rd
      by (auto simp: gswip_port_fast_age_loop.simps [of priv port mb i] fdb_aged_entry)
    have "n = 2048 - (i + 1)" using Suc.hyps(2) by simp
    from Suc.hyps(1) [OF this Suc.prems(1), of ?mb1] Suc.prems lt
    have IH: "pce_tbl (hw (gswip_port_fast_age_loop priv port ?mb1 (i + 1))) =
     (pce_tbl (hw priv))(GSWIP_TABLE_MAC_BRIDGE :=
        (\<lambda>j. if i + 1 \<le> j \<and> j < 2048 \<and> fdb_aged port (?T j)
             then (?T j)\<lparr>row_valid := False\<rparr> else ?T j)) \<and>
     vlans (gswip_port_fast_age_loop priv port ?mb1 (i + 1)) = vlans priv \<and>
     klog (gswip_port_fast_age_loop priv port ?mb1 (i + 1)) = klog priv"
      by simp
    have "(\<lambda>j. if i + 1 \<le> j \<and> j < 2048 \<and> fdb_aged port (?T j)
             then (?T j)\<lparr>row_valid := False\<rparr> else ?T j) =
          (\<lambda>j. if i \<le> j \<and> j < 2048 \<and> fdb_aged port (?T j)
             then (?T j)\<lparr>row_valid := False\<rparr> else ?T j)"
      using False by (auto simp: fun_eq_iff le_eq_less_or_eq)
    with IH step show ?thesis by simp
  next
    case True
    let ?mb2 = "?mb1\<lparr>tbl_valid := False\<rparr>"
    let ?priv2 = "priv\<lparr>hw := hw_table_store (hw priv) ?mb2\<rparr>"
    have wr: "gswip_pce_table_entry_write priv ?mb2 = (None, ?priv2)"
      using Suc.prems by (simp add: write_ok)
    from True have step: "gswip_port_fast_age_loop priv port mb i =
        gswip_port_fast_age_loop ?priv2 port ?mb2 (i + 1)"
      using lt rd wr
      by (simp add: gswip_port_fast_age_loop.simps [of priv port mb i] fdb_aged_entry)
    have T2: "pce_tbl (hw ?priv2) = (pce_tbl (hw priv))(GSWIP_TABLE_MAC_BRIDGE :=
        (?T)(i := (?T i)\<lparr>row_valid := False\<rparr>))"
      using Suc.prems lt
      by (simp add: hw_table_store_def hw_row_index_def unat_of_nat_fdb ucast_gmap
          row_valid_update_eq)
    have "n = 2048 - (i + 1)" using Suc.hyps(2) by simp
    from Suc.hyps(1) [OF this, of ?priv2 ?mb2] Suc.prems lt
    have IH: "pce_tbl (hw (gswip_port_fast_age_loop ?priv2 port ?mb2 (i + 1))) =
     (pce_tbl (hw ?priv2))(GSWIP_TABLE_MAC_BRIDGE :=
        (\<lambda>j. if i + 1 \<le> j \<and> j < 2048 \<and>
                fdb_aged port (pce_tbl (hw ?priv2) GSWIP_TABLE_MAC_BRIDGE j)
             then (pce_tbl (hw ?priv2) GSWIP_TABLE_MAC_BRIDGE j)\<lparr>row_valid := False\<rparr>
             else pce_tbl (hw ?priv2) GSWIP_TABLE_MAC_BRIDGE j)) \<and>
     vlans (gswip_port_fast_age_loop ?priv2 port ?mb2 (i + 1)) = vlans priv \<and>
     klog (gswip_port_fast_age_loop ?priv2 port ?mb2 (i + 1)) = klog priv"
      by simp
    have "(pce_tbl (hw ?priv2))(GSWIP_TABLE_MAC_BRIDGE :=
        (\<lambda>j. if i + 1 \<le> j \<and> j < 2048 \<and>
                fdb_aged port (pce_tbl (hw ?priv2) GSWIP_TABLE_MAC_BRIDGE j)
             then (pce_tbl (hw ?priv2) GSWIP_TABLE_MAC_BRIDGE j)\<lparr>row_valid := False\<rparr>
             else pce_tbl (hw ?priv2) GSWIP_TABLE_MAC_BRIDGE j)) =
      (pce_tbl (hw priv))(GSWIP_TABLE_MAC_BRIDGE :=
        (\<lambda>j. if i \<le> j \<and> j < 2048 \<and> fdb_aged port (?T j)
             then (?T j)\<lparr>row_valid := False\<rparr> else ?T j))"
      unfolding T2 using True lt by (auto simp: fun_eq_iff)
    with IH step show ?thesis by simp
  qed
qed


lemma r_timeout_tbl [simp]:
  "pce_tbl (hw (snd (gswip_switch_r_timeout priv off c))) = pce_tbl (hw priv)"
  "ks_index (hw (snd (gswip_switch_r_timeout priv off c))) = ks_index (hw priv)"
  by (simp_all add: gswip_switch_r_timeout_def split: list.splits)

lemma read_tbl:
  "pce_tbl (hw (fst (snd (gswip_pce_table_entry_read priv tbl)))) = pce_tbl (hw priv) \<and>
   (fst (gswip_pce_table_entry_read priv tbl) = None \<longrightarrow>
      snd (snd (gswip_pce_table_entry_read priv tbl)) =
        (let row = pce_tbl (hw priv) (tbl_table tbl)
                     (if tbl_key_mode tbl
                      then ks_index (hw priv) (pce_tbl (hw priv) (tbl_table tbl)) (tbl_key tbl)
                      else unat (tbl_index tbl))
         in tbl\<lparr>tbl_key := row_key row, tbl_val := row_val row,
                tbl_mask := row_mask row, tbl_type := row_type row,
                tbl_valid := row_valid row, tbl_gmap := ucast (row_gmap row)\<rparr>))"
  by (simp add: gswip_pce_table_entry_read_def split_def Let_def hw_row_index_def
      split: option.splits)

lemma write_tbl:
  "(pce_tbl (hw (snd (gswip_pce_table_entry_write priv tbl))) = pce_tbl (hw priv) \<and>
    fst (gswip_pce_table_entry_write priv tbl) \<noteq> None) \<or>
   pce_tbl (hw (snd (gswip_pce_table_entry_write priv tbl))) =
     pce_tbl (hw_table_store (hw priv) tbl)"
  by (simp add: gswip_pce_table_entry_write_def split_def hw_table_store_def hw_row_index_def
      split: option.splits)

lemma fast_age_loop_only_aged:
  "\<not> tbl_key_mode mb \<Longrightarrow> i \<le> 2048 \<Longrightarrow>
   (pce_tbl (hw (gswip_port_fast_age_loop priv port mb i)) t j = pce_tbl (hw priv) t j \<or>
    (t = GSWIP_TABLE_MAC_BRIDGE \<and> i \<le> j \<and> j < 2048 \<and>
     fdb_aged port (pce_tbl (hw priv) GSWIP_TABLE_MAC_BRIDGE j) \<and>
     pce_tbl (hw (gswip_port_fast_age_loop priv port mb i)) t j =
       (pce_tbl (hw priv) GSWIP_TABLE_MAC_BRIDGE j)\<lparr>row_valid := False\<rparr>)) \<and>
   vlans (gswip_port_fast_age_loop priv port mb i) = vlans priv"
proof (induction "2048 - i" arbitrary: i priv mb)
  case 0
  then have n: "\<not> i < 2048" by simp
  then have L: "gswip_port_fast_age_loop priv port mb i = priv"
    by (simp add: gswip_port_fast_age_loop.simps [of priv port mb i])
  show ?case
    unfolding L by simp
next
  case (Suc n)
  then have lt: "i < 2048" by simp
  have n: "n = 2048 - (i + 1)" using Suc.hyps(2) by simp
  from lt have le: "i + 1 \<le> 2048" by simp
  let ?T = "pce_tbl (hw priv) GSWIP_TABLE_MAC_BRIDGE"
  let ?mb0 = "mb\<lparr>tbl_table := GSWIP_TABLE_MAC_BRIDGE, tbl_index := of_nat i\<rparr>"
  obtain r priv1 mb1 where rd: "gswip_pce_table_entry_read priv ?mb0 = (r, priv1, mb1)"
    by (metis prod_cases3)
  from read_tbl [of priv ?mb0] read_frame(1) [of priv ?mb0] rd Suc.prems lt
  have t1: "pce_tbl (hw priv1) = pce_tbl (hw priv)" and v1: "vlans priv1 = vlans priv"
    and m1: "r = None \<Longrightarrow> mb1 = ?mb0\<lparr>tbl_key := row_key (?T i), tbl_val := row_val (?T i),
                tbl_mask := row_mask (?T i), tbl_type := row_type (?T i),
                tbl_valid := row_valid (?T i), tbl_gmap := ucast (row_gmap (?T i))\<rparr>"
    by (simp_all add: Let_def unat_of_nat_fdb)
  show ?case
  proof (cases r)
    case (Some err)
    with rd lt have "gswip_port_fast_age_loop priv port mb i =
        dev_err priv1 ''failed to read mac bridge: %d''"
      by (simp add: gswip_port_fast_age_loop.simps [of priv port mb i])
    with t1 v1 show ?thesis by simp
  next
    case None
    note mb1 = m1 [OF None]
    from mb1 Suc.prems have k1: "\<not> tbl_key_mode mb1" by simp
    show ?thesis
    proof (cases "fdb_aged port (?T i)")
      case False
      with mb1 have "\<not> tbl_valid mb1 \<or> mac_bridge_static (tbl_val mb1) \<or>
          mac_bridge_port (tbl_val mb1) \<noteq> port"
        by (simp add: fdb_aged_entry)
      with rd None lt have step: "gswip_port_fast_age_loop priv port mb i =
          gswip_port_fast_age_loop priv1 port mb1 (i + 1)"
        by (auto simp: gswip_port_fast_age_loop.simps [of priv port mb i])
      from Suc.hyps(1) [OF n k1 le, of priv1] lt t1 v1 False
      show ?thesis
        unfolding step by auto
    next
      case True
      let ?mb2 = "mb1\<lparr>tbl_valid := False\<rparr>"
      from True mb1 have cond: "tbl_valid mb1" "\<not> mac_bridge_static (tbl_val mb1)"
        "mac_bridge_port (tbl_val mb1) = port"
        by (simp_all add: fdb_aged_entry)
      obtain r2 priv2 where wr: "gswip_pce_table_entry_write priv1 ?mb2 = (r2, priv2)"
        by fastforce
      have st: "pce_tbl (hw_table_store (hw priv1) ?mb2) =
          (pce_tbl (hw priv))(GSWIP_TABLE_MAC_BRIDGE := (?T)(i := (?T i)\<lparr>row_valid := False\<rparr>))"
        using mb1 Suc.prems lt t1
        by (simp add: hw_table_store_def hw_row_index_def unat_of_nat_fdb ucast_gmap
            row_valid_update_eq)
      from write_tbl [of priv1 ?mb2] write_frame(1) [of priv1 ?mb2] wr t1 v1 st
      have t2: "(pce_tbl (hw priv2) = pce_tbl (hw priv) \<and> r2 \<noteq> None) \<or>
          pce_tbl (hw priv2) =
            (pce_tbl (hw priv))(GSWIP_TABLE_MAC_BRIDGE := (?T)(i := (?T i)\<lparr>row_valid := False\<rparr>))"
        and v2: "vlans priv2 = vlans priv"
        by simp_all
      show ?thesis
      proof (cases r2)
        case (Some err)
        with rd None lt cond wr have "gswip_port_fast_age_loop priv port mb i =
            dev_err priv2 ''failed to write mac bridge: %d''"
          by (simp add: gswip_port_fast_age_loop.simps [of priv port mb i])
        with t2 v2 True lt show ?thesis by (auto split: if_splits)
      next
        case None2: None
        with rd None lt cond wr have step: "gswip_port_fast_age_loop priv port mb i =
            gswip_port_fast_age_loop priv2 port ?mb2 (i + 1)"
          by (simp add: gswip_port_fast_age_loop.simps [of priv port mb i])
        from None2 t2 have t2': "pce_tbl (hw priv2) =
            (pce_tbl (hw priv))(GSWIP_TABLE_MAC_BRIDGE := (?T)(i := (?T i)\<lparr>row_valid := False\<rparr>))"
          by simp
        from k1 have k2: "\<not> tbl_key_mode ?mb2" by simp
        from Suc.hyps(1) [OF n k2 le, of priv2] lt v2 True
        show ?thesis
          unfolding step t2' by (auto split: if_splits)
      qed
    qed
  qed
qed

lemma pce_entry0_key_mode: "\<not> tbl_key_mode pce_entry0"
  by (simp add: pce_entry0_def)

text \<open>
  Claim C7. \<open>gswip_port_fast_age\<close> for port \<open>p\<close> goes through the 2048 indices of the
  forwarding table. On hardware that answers every poll, the table afterwards is the
  table before with exactly the entries that are valid, not static and learned on \<open>p\<close>
  made invalid. Whatever the hardware answers, every other entry (static, learned on
  another port, invalid, or of another table) is as before, and so is the slot pool.
\<close>

theorem fast_age_invalidates_learned:
  "(polls (hw priv) = [] \<longrightarrow>
      pce_tbl (hw (gswip_port_fast_age priv port)) =
        (pce_tbl (hw priv))(GSWIP_TABLE_MAC_BRIDGE :=
           (\<lambda>j. if j < 2048 \<and> fdb_aged port (pce_tbl (hw priv) GSWIP_TABLE_MAC_BRIDGE j)
                then (pce_tbl (hw priv) GSWIP_TABLE_MAC_BRIDGE j)\<lparr>row_valid := False\<rparr>
                else pce_tbl (hw priv) GSWIP_TABLE_MAC_BRIDGE j))) \<and>
   (\<forall>t j. \<not> (t = GSWIP_TABLE_MAC_BRIDGE \<and> j < 2048 \<and>
             fdb_aged port (pce_tbl (hw priv) GSWIP_TABLE_MAC_BRIDGE j)) \<longrightarrow>
          pce_tbl (hw (gswip_port_fast_age priv port)) t j = pce_tbl (hw priv) t j) \<and>
   vlans (gswip_port_fast_age priv port) = vlans priv"
proof (intro conjI impI allI)
  assume "polls (hw priv) = []"
  from fast_age_loop_ok [OF this pce_entry0_key_mode, of 0 port]
  show "pce_tbl (hw (gswip_port_fast_age priv port)) =
        (pce_tbl (hw priv))(GSWIP_TABLE_MAC_BRIDGE :=
           (\<lambda>j. if j < 2048 \<and> fdb_aged port (pce_tbl (hw priv) GSWIP_TABLE_MAC_BRIDGE j)
                then (pce_tbl (hw priv) GSWIP_TABLE_MAC_BRIDGE j)\<lparr>row_valid := False\<rparr>
                else pce_tbl (hw priv) GSWIP_TABLE_MAC_BRIDGE j))"
    by (simp add: gswip_port_fast_age_def)
next
  fix t j
  assume "\<not> (t = GSWIP_TABLE_MAC_BRIDGE \<and> j < 2048 \<and>
             fdb_aged port (pce_tbl (hw priv) GSWIP_TABLE_MAC_BRIDGE j))"
  with fast_age_loop_only_aged [OF pce_entry0_key_mode, of 0 priv port t j]
  show "pce_tbl (hw (gswip_port_fast_age priv port)) t j = pce_tbl (hw priv) t j"
    by (auto simp: gswip_port_fast_age_def)
next
  from fast_age_loop_only_aged [OF pce_entry0_key_mode, of 0 priv port]
  show "vlans (gswip_port_fast_age priv port) = vlans priv"
    by (simp add: gswip_port_fast_age_def)
qed

lemma priv_fdb_rows:
  "polls (hw priv_fdb) = []"
  "pce_tbl (hw priv_fdb) GSWIP_TABLE_MAC_BRIDGE 0 =
     learned_row [0x00, 0x11, 0x22, 0x33, 0x44, 0x55] 3 2"
  "pce_tbl (hw priv_fdb) GSWIP_TABLE_MAC_BRIDGE 1 =
     fdb_row [0xaa, 0xbb, 0xcc, 0xdd, 0xee, 0xff] 3 2 True"
  "pce_tbl (hw priv_fdb) GSWIP_TABLE_MAC_BRIDGE 2 =
     learned_row [0x00, 0x11, 0x22, 0x33, 0x44, 0x66] 3 3"
  "pce_tbl (hw priv_fdb) GSWIP_TABLE_MAC_BRIDGE (Suc 0) =
     fdb_row [0xaa, 0xbb, 0xcc, 0xdd, 0xee, 0xff] 3 2 True"
  by (simp_all add: priv_fdb_def hw_clear_def)

lemma fdb_aged_examples:
  "fdb_aged 2 (learned_row a f 2)"
  "\<not> fdb_aged 2 (learned_row a f 3)"
  "\<not> fdb_aged p (fdb_row a f q True)"
  by (simp_all add: fdb_aged_def is_static_def learned_on_def learned_row_def fdb_row_def
      GSWIP_TABLE_MAC_BRIDGE_STATIC_def)

theorem fast_age_invalidates_learned_witness:
  "polls (hw priv_fdb) = [] \<and>
   pce_tbl (hw (gswip_port_fast_age priv_fdb 2)) GSWIP_TABLE_MAC_BRIDGE 0 =
     (learned_row [0x00, 0x11, 0x22, 0x33, 0x44, 0x55] 3 2)\<lparr>row_valid := False\<rparr> \<and>
   pce_tbl (hw (gswip_port_fast_age priv_fdb 2)) GSWIP_TABLE_MAC_BRIDGE 1 =
     fdb_row [0xaa, 0xbb, 0xcc, 0xdd, 0xee, 0xff] 3 2 True \<and>
   pce_tbl (hw (gswip_port_fast_age priv_fdb 2)) GSWIP_TABLE_MAC_BRIDGE 2 =
     learned_row [0x00, 0x11, 0x22, 0x33, 0x44, 0x66] 3 3 \<and>
   vlans (gswip_port_fast_age priv_fdb 2) = vlans priv_fdb"
  using fast_age_invalidates_learned [of priv_fdb 2]
  by (simp add: priv_fdb_rows fdb_aged_examples)

section \<open>Dumping the forwarding table\<close>



lemma mask_ff: "(0xff :: u16) = mask 8"
  by (simp add: mask_eq_exp_minus_1)


lemma key_high_byte:
  "ucast (drop_bit 8 (ucast (a::u8) OR push_bit 8 (ucast (b::u8)) :: u16) AND 0xff) = b"
  unfolding mask_ff
  by (rule bit_word_eqI) (auto simp: bit_simps dest: bit_imp_le_length)













end
